theory Spec2Isabelle
  imports Main "HOL-Library.Word"
begin

section \<open>Behavior nodes (the behavior-tree file of package ai)\<close>

datatype BNodeState =
    BNODE_STAT_NOT_EXECUTE
  | BNODE_STAT_EXECUTING
  | BNODE_STAT_SUCC
  | BNODE_STAT_FAIL

datatype BNodeType =
    BNODE_TYPE_ACTION
  | BNODE_TYPE_SEQUENCE
  | BNODE_TYPE_SELECT
  | BNODE_TYPE_PARALLEL

definition BTREE_ROOT_NODE_ID :: "32 word" where
  "BTREE_ROOT_NODE_ID = 1"

text \<open>
  The struct \<^verbatim>\<open>BaseBehaviorNode\<close>. Its field \<^verbatim>\<open>state\<close> is called \<open>nstate\<close> here,
  because the FSM record below has a field \<open>state\<close> of its own.
\<close>

record BaseBehaviorNode =
  nodeId :: "32 word"
  nodeType :: BNodeType
  actionId :: "32 word"
  nstate :: BNodeState
  step :: "32 word"
  maxStep :: "32 word"

definition NewBaseBehaviorNode :: "32 word \<Rightarrow> 32 word \<Rightarrow> 32 word \<Rightarrow> BaseBehaviorNode" where
  "NewBaseBehaviorNode nid aid ms =
     \<lparr>nodeId = nid, nodeType = BNODE_TYPE_ACTION, actionId = aid,
      nstate = BNODE_STAT_NOT_EXECUTE, step = 0, maxStep = ms\<rparr>"

definition UpdateStep :: "BaseBehaviorNode \<Rightarrow> BaseBehaviorNode" where
  "UpdateStep n = n\<lparr>step := step n + 1\<rparr>"

definition SetState :: "BaseBehaviorNode \<Rightarrow> BNodeState \<Rightarrow> BaseBehaviorNode" where
  "SetState n stat = n\<lparr>nstate := stat\<rparr>"

definition base_IsCompleted :: "BaseBehaviorNode \<Rightarrow> bool" where
  "base_IsCompleted n =
     (if nstate n = BNODE_STAT_SUCC then True
      else if nstate n = BNODE_STAT_FAIL then True
      else False)"

text \<open>
  The listener of a leaf is code outside the package. It is called with the node and the
  bound parameters and returns a node state. What it can do to the core is modelled in
  full: it reads the node, it may call \<^verbatim>\<open>UpdateStep\<close> on it any number of times (the
  \<open>nat\<close> of its result), and it changes a world \<open>'w\<close> of its own.
\<close>

type_synonym ('w, 'p) AgentBNodeListener =
  "'w \<Rightarrow> BaseBehaviorNode \<Rightarrow> 'p list \<Rightarrow> BNodeState \<times> nat \<times> 'w"

text \<open>
  The implementors of interface \<^verbatim>\<open>BehaviorNode\<close> in the package, one constructor for
  each Go type; \<^verbatim>\<open>Execute\<close> dispatches on it. A node owns its children (no node is
  shared between two parents), so the pointer graph is a tree of values.
\<close>

datatype ('w, 'p) BehaviorNode =
    BaseNode BaseBehaviorNode
  | AgentBNode BaseBehaviorNode "('w, 'p) AgentBNodeListener option" "'p list"
  | ControlNode BaseBehaviorNode "('w, 'p) BehaviorNode list"
  | SequenceNode BaseBehaviorNode "('w, 'p) BehaviorNode list"
  | SelectNode BaseBehaviorNode "('w, 'p) BehaviorNode list"
  | ParallelNode BaseBehaviorNode "('w, 'p) BehaviorNode list"

fun base :: "('w, 'p) BehaviorNode \<Rightarrow> BaseBehaviorNode" where
  "base (BaseNode b) = b"
| "base (AgentBNode b l ps) = b"
| "base (ControlNode b cs) = b"
| "base (SequenceNode b cs) = b"
| "base (SelectNode b cs) = b"
| "base (ParallelNode b cs) = b"

fun subNodes :: "('w, 'p) BehaviorNode \<Rightarrow> ('w, 'p) BehaviorNode list" where
  "subNodes (BaseNode b) = []"
| "subNodes (AgentBNode b l ps) = []"
| "subNodes (ControlNode b cs) = cs"
| "subNodes (SequenceNode b cs) = cs"
| "subNodes (SelectNode b cs) = cs"
| "subNodes (ParallelNode b cs) = cs"

definition GetState :: "('w, 'p) BehaviorNode \<Rightarrow> BNodeState" where
  "GetState n = nstate (base n)"

definition GetStep :: "('w, 'p) BehaviorNode \<Rightarrow> 32 word" where
  "GetStep n = step (base n)"

definition IsCompleted :: "('w, 'p) BehaviorNode \<Rightarrow> bool" where
  "IsCompleted n = base_IsCompleted (base n)"

definition NewControlNode :: "32 word \<Rightarrow> BNodeType \<Rightarrow> BaseBehaviorNode" where
  "NewControlNode nid ty = (NewBaseBehaviorNode nid 0 0)\<lparr>nodeType := ty\<rparr>"

definition NewSequenceNode :: "32 word \<Rightarrow> ('w, 'p) BehaviorNode" where
  "NewSequenceNode nid = SequenceNode (NewControlNode nid BNODE_TYPE_SEQUENCE) []"

definition NewSelectNode :: "32 word \<Rightarrow> ('w, 'p) BehaviorNode" where
  "NewSelectNode nid = SelectNode (NewControlNode nid BNODE_TYPE_SELECT) []"

definition NewParallelNode :: "32 word \<Rightarrow> ('w, 'p) BehaviorNode" where
  "NewParallelNode nid = ParallelNode (NewControlNode nid BNODE_TYPE_PARALLEL) []"

definition NewAgentBNode ::
  "32 word \<Rightarrow> 32 word \<Rightarrow> 32 word \<Rightarrow> ('w, 'p) AgentBNodeListener option \<Rightarrow> 'p list
     \<Rightarrow> ('w, 'p) BehaviorNode" where
  "NewAgentBNode nid aid ms listener param =
     AgentBNode (NewBaseBehaviorNode nid aid ms) listener param"

text \<open>
  \<^verbatim>\<open>ControlNode.AddChild\<close>, promoted to the three composites; the no-op of
  \<^verbatim>\<open>BaseBehaviorNode\<close> for the leaves. A nil child is \<open>None\<close>.
\<close>

fun AddChild :: "('w, 'p) BehaviorNode \<Rightarrow> ('w, 'p) BehaviorNode option \<Rightarrow> ('w, 'p) BehaviorNode" where
  "AddChild n None = n"
| "AddChild (BaseNode b) (Some c) = BaseNode b"
| "AddChild (AgentBNode b l ps) (Some c) = AgentBNode b l ps"
| "AddChild (ControlNode b cs) (Some c) = ControlNode b (cs @ [c])"
| "AddChild (SequenceNode b cs) (Some c) = SequenceNode b (cs @ [c])"
| "AddChild (SelectNode b cs) (Some c) = SelectNode b (cs @ [c])"
| "AddChild (ParallelNode b cs) (Some c) = ParallelNode b (cs @ [c])"

definition GetID :: "('w, 'p) BehaviorNode \<Rightarrow> 32 word" where
  "GetID n = nodeId (base n)"

text \<open>
  The loop of \<^verbatim>\<open>ControlNode.RemoveChildByID\<close>: the first child with this id is taken out
  of the list. \<^verbatim>\<open>RemoveChildByID\<close> is promoted to the three composites and is the no-op
  of \<^verbatim>\<open>BaseBehaviorNode\<close> for the leaves.
\<close>

fun remove_by_id :: "32 word \<Rightarrow> ('w, 'p) BehaviorNode list \<Rightarrow> ('w, 'p) BehaviorNode list" where
  "remove_by_id nid [] = []"
| "remove_by_id nid (exist # rest) =
     (if GetID exist = nid then rest else exist # remove_by_id nid rest)"

fun RemoveChildByID :: "('w, 'p) BehaviorNode \<Rightarrow> 32 word \<Rightarrow> ('w, 'p) BehaviorNode" where
  "RemoveChildByID (BaseNode b) nid = BaseNode b"
| "RemoveChildByID (AgentBNode b l ps) nid = AgentBNode b l ps"
| "RemoveChildByID (ControlNode b cs) nid = ControlNode b (remove_by_id nid cs)"
| "RemoveChildByID (SequenceNode b cs) nid = SequenceNode b (remove_by_id nid cs)"
| "RemoveChildByID (SelectNode b cs) nid = SelectNode b (remove_by_id nid cs)"
| "RemoveChildByID (ParallelNode b cs) nid = ParallelNode b (remove_by_id nid cs)"

text \<open>
  What a call of \<^verbatim>\<open>Execute\<close> runs in: the world of the listeners, and the log of the
  listener calls made so far (the node as it was when its listener was called).
\<close>

record 'w BEnv =
  world :: 'w
  invoked :: "BaseBehaviorNode list"

text \<open>
  \<^verbatim>\<open>Execute\<close> of every node type, and the three \<^verbatim>\<open>for ... range n.subNodes\<close> loops.
  Each loop takes the state of the composite so far and returns the children as they
  are after the loop, the state of the composite, and the environment. \<open>i\<close> is the
  index of the head of the list within \<^verbatim>\<open>n.subNodes\<close>; \<open>childLen\<close> and \<open>i\<close> are Go
  \<^verbatim>\<open>int\<close>s. A \<^verbatim>\<open>break\<close> returns the rest of the list untouched.
\<close>

fun Execute :: "'w BEnv \<Rightarrow> ('w, 'p) BehaviorNode \<Rightarrow> ('w, 'p) BehaviorNode \<times> 'w BEnv"
  and sequence_loop ::
    "'w BEnv \<Rightarrow> BNodeState \<Rightarrow> int \<Rightarrow> int \<Rightarrow> ('w, 'p) BehaviorNode list
       \<Rightarrow> ('w, 'p) BehaviorNode list \<times> BNodeState \<times> 'w BEnv"
  and select_loop ::
    "'w BEnv \<Rightarrow> BNodeState \<Rightarrow> int \<Rightarrow> int \<Rightarrow> ('w, 'p) BehaviorNode list
       \<Rightarrow> ('w, 'p) BehaviorNode list \<times> BNodeState \<times> 'w BEnv"
  and parallel_loop ::
    "'w BEnv \<Rightarrow> BNodeState \<Rightarrow> bool \<Rightarrow> ('w, 'p) BehaviorNode list
       \<Rightarrow> ('w, 'p) BehaviorNode list \<times> BNodeState \<times> bool \<times> 'w BEnv"
where
  "Execute e (BaseNode b) = (BaseNode b, e)"
| "Execute e (ControlNode b cs) = (ControlNode b cs, e)"
| "Execute e (AgentBNode b listener params) =
     (case listener of
        None \<Rightarrow> (AgentBNode b listener params, e)
      | Some l \<Rightarrow>
          (case l (world e) b params of
             (stat, k, w') \<Rightarrow>
               (AgentBNode (SetState ((UpdateStep ^^ k) b) stat) listener params,
                \<lparr>world = w', invoked = invoked e @ [b]\<rparr>)))"
| "Execute e (SequenceNode b cs) =
     (if base_IsCompleted b then (SequenceNode b cs, e)
      else
        (case sequence_loop e BNODE_STAT_EXECUTING (int (length cs)) 0 cs of
           (cs', st, e') \<Rightarrow> (SequenceNode (b\<lparr>nstate := st\<rparr>) cs', e')))"
| "Execute e (SelectNode b cs) =
     (if base_IsCompleted b then (SelectNode b cs, e)
      else
        (case select_loop e BNODE_STAT_EXECUTING (int (length cs)) 0 cs of
           (cs', st, e') \<Rightarrow> (SelectNode (b\<lparr>nstate := st\<rparr>) cs', e')))"
| "Execute e (ParallelNode b cs) =
     (if base_IsCompleted b then (ParallelNode b cs, e)
      else
        (case parallel_loop e BNODE_STAT_EXECUTING True cs of
           (cs', st, bFinish, e') \<Rightarrow>
             (ParallelNode
                (b\<lparr>nstate := (if bFinish \<and> st = BNODE_STAT_EXECUTING then BNODE_STAT_SUCC else st)\<rparr>)
                cs', e')))"
| "sequence_loop e st childLen i [] = ([], st, e)"
| "sequence_loop e st childLen i (child # rest) =
     (if IsCompleted child then
        (case sequence_loop e st childLen (i + 1) rest of
           (rest', st', e') \<Rightarrow> (child # rest', st', e'))
      else
        (case Execute e child of
           (child', e') \<Rightarrow>
             if \<not> IsCompleted child' then (child' # rest, st, e')
             else if GetState child' = BNODE_STAT_FAIL then (child' # rest, BNODE_STAT_FAIL, e')
             else if i = childLen - 1 then (child' # rest, BNODE_STAT_SUCC, e')
             else (child' # rest, st, e')))"
| "select_loop e st childLen i [] = ([], st, e)"
| "select_loop e st childLen i (child # rest) =
     (if IsCompleted child then
        (case select_loop e st childLen (i + 1) rest of
           (rest', st', e') \<Rightarrow> (child # rest', st', e'))
      else
        (case Execute e child of
           (child', e') \<Rightarrow>
             if \<not> IsCompleted child' then (child' # rest, st, e')
             else if GetState child' = BNODE_STAT_SUCC then (child' # rest, BNODE_STAT_SUCC, e')
             else if i = childLen - 1 then (child' # rest, BNODE_STAT_FAIL, e')
             else (child' # rest, st, e')))"
| "parallel_loop e st bFinish [] = ([], st, bFinish, e)"
| "parallel_loop e st bFinish (child # rest) =
     (if IsCompleted child then
        (case parallel_loop e st bFinish rest of
           (rest', st', bFinish', e') \<Rightarrow> (child # rest', st', bFinish', e'))
      else
        (case Execute e child of
           (child', e') \<Rightarrow>
             if \<not> IsCompleted child' then
               (case parallel_loop e' st False rest of
                  (rest', st', bFinish', e'') \<Rightarrow> (child' # rest', st', bFinish', e''))
             else if GetState child' = BNODE_STAT_FAIL then
               (child' # rest, BNODE_STAT_FAIL, bFinish, e')
             else
               (case parallel_loop e' st bFinish rest of
                  (rest', st', bFinish', e'') \<Rightarrow> (child' # rest', st', bFinish', e''))))"

subsection \<open>The behavior tree\<close>

record ('w, 'p) BehaviorTree =
  treeId :: "32 word"
  rootNode :: "('w, 'p) BehaviorNode"

definition NewBehaviorTree :: "32 word \<Rightarrow> ('w, 'p) BehaviorTree" where
  "NewBehaviorTree tid = \<lparr>treeId = tid, rootNode = NewSequenceNode BTREE_ROOT_NODE_ID\<rparr>"

definition BehaviorTree_Execute ::
  "'w BEnv \<Rightarrow> ('w, 'p) BehaviorTree \<Rightarrow> ('w, 'p) BehaviorTree \<times> 'w BEnv" where
  "BehaviorTree_Execute e t =
     (case Execute e (rootNode t) of (r, e') \<Rightarrow> (t\<lparr>rootNode := r\<rparr>, e'))"

definition BehaviorTree_GetState :: "('w, 'p) BehaviorTree \<Rightarrow> BNodeState" where
  "BehaviorTree_GetState t = GetState (rootNode t)"

definition BehaviorTree_IsCompleted :: "('w, 'p) BehaviorTree \<Rightarrow> bool" where
  "BehaviorTree_IsCompleted t = IsCompleted (rootNode t)"

text \<open>\<open>n\<close> calls of \<^verbatim>\<open>Execute\<close> in a row, on a node and on a tree.\<close>

fun Execute_times :: "nat \<Rightarrow> 'w BEnv \<Rightarrow> ('w, 'p) BehaviorNode \<Rightarrow> ('w, 'p) BehaviorNode \<times> 'w BEnv" where
  "Execute_times 0 e n = (n, e)"
| "Execute_times (Suc k) e n = (case Execute e n of (n', e') \<Rightarrow> Execute_times k e' n')"

fun BehaviorTree_Execute_times ::
  "nat \<Rightarrow> 'w BEnv \<Rightarrow> ('w, 'p) BehaviorTree \<Rightarrow> ('w, 'p) BehaviorTree \<times> 'w BEnv" where
  "BehaviorTree_Execute_times 0 e t = (t, e)"
| "BehaviorTree_Execute_times (Suc k) e t =
     (case BehaviorTree_Execute e t of (t', e') \<Rightarrow> BehaviorTree_Execute_times k e' t')"

text \<open>
  Executing every child of a list that is not completed, in order, each in the
  environment the one before left: what "iterating all non-completed children" is.
\<close>

fun execute_each ::
  "'w BEnv \<Rightarrow> ('w, 'p) BehaviorNode list \<Rightarrow> ('w, 'p) BehaviorNode list \<times> 'w BEnv" where
  "execute_each e [] = ([], e)"
| "execute_each e (child # rest) =
     (if IsCompleted child then
        (case execute_each e rest of (rest', e') \<Rightarrow> (child # rest', e'))
      else
        (case Execute e child of
           (child', e') \<Rightarrow>
             (case execute_each e' rest of (rest', e'') \<Rightarrow> (child' # rest', e''))))"

text \<open>
  No child of \<open>cs\<close> completed with \<^verbatim>\<open>BNODE_STAT_FAIL\<close> on the way to \<open>cs'\<close>: a child that
  was not completed in \<open>cs\<close> is not failed in \<open>cs'\<close>.
\<close>

fun none_failed :: "('w, 'p) BehaviorNode list \<Rightarrow> ('w, 'p) BehaviorNode list \<Rightarrow> bool" where
  "none_failed (c # cs) (c' # cs') =
     ((IsCompleted c \<or> GetState c' \<noteq> BNODE_STAT_FAIL) \<and> none_failed cs cs')"
| "none_failed cs cs' = True"

text \<open>The Go type of a node is \<^verbatim>\<open>*AgentBNode\<close>.\<close>

fun is_AgentBNode :: "('w, 'p) BehaviorNode \<Rightarrow> bool" where
  "is_AgentBNode (AgentBNode b l ps) = True"
| "is_AgentBNode n = False"

text \<open>
  The listener calls made between two environments, and the statement that the log only
  grew, by calls on nodes that were not completed when their listener was called.
\<close>

definition new_calls :: "'w BEnv \<Rightarrow> 'w BEnv \<Rightarrow> BaseBehaviorNode list" where
  "new_calls e e' = drop (length (invoked e)) (invoked e')"

definition calls_extend :: "'w BEnv \<Rightarrow> 'w BEnv \<Rightarrow> bool" where
  "calls_extend e e' \<longleftrightarrow>
     invoked e' = invoked e @ new_calls e e'
     \<and> list_all (\<lambda>b. \<not> base_IsCompleted b) (new_calls e e')"

subsection \<open>Example trees\<close>

text \<open>
  A listener that answers from a script: its world is the list of the states it will
  return, one for each call; it calls \<^verbatim>\<open>UpdateStep\<close> once in each call.
\<close>

definition scripted :: "(BNodeState list, unit) AgentBNodeListener" where
  "scripted w b ps =
     (case w of [] \<Rightarrow> (BNODE_STAT_EXECUTING, Suc 0, []) | s # r \<Rightarrow> (s, Suc 0, r))"

definition script_env :: "BNodeState list \<Rightarrow> BNodeState list BEnv" where
  "script_env w = \<lparr>world = w, invoked = []\<rparr>"

definition leaf :: "32 word \<Rightarrow> (BNodeState list, unit) BehaviorNode" where
  "leaf i = NewAgentBNode i i 0 (Some scripted) []"

definition leaf_done :: "32 word \<Rightarrow> (BNodeState list, unit) BehaviorNode" where
  "leaf_done i = fst (Execute (script_env [BNODE_STAT_SUCC]) (leaf i))"

definition seq3 :: "(BNodeState list, unit) BehaviorNode" where
  "seq3 = AddChild (AddChild (AddChild (NewSequenceNode 1) (Some (leaf_done 2)))
                     (Some (leaf 3))) (Some (leaf 4))"

definition par3 :: "(BNodeState list, unit) BehaviorNode" where
  "par3 = AddChild (AddChild (AddChild (NewParallelNode 1) (Some (leaf 2)))
                     (Some (leaf 3))) (Some (leaf 4))"

definition par2 :: "(BNodeState list, unit) BehaviorNode" where
  "par2 = AddChild (AddChild (NewParallelNode 1) (Some (leaf 2))) (Some (leaf 3))"

text \<open>
  A sequence of one leaf, and the same sequence after one \<^verbatim>\<open>Execute\<close> in which the leaf
  succeeded, with the leaf then removed.
\<close>

definition seq_one :: "(BNodeState list, unit) BehaviorNode" where
  "seq_one = AddChild (NewSequenceNode 1) (Some (leaf 2))"

definition seq_emptied :: "(BNodeState list, unit) BehaviorNode" where
  "seq_emptied = RemoveChildByID (fst (Execute (script_env [BNODE_STAT_SUCC]) seq_one)) 2"

definition tree2 :: "(BNodeState list, unit) BehaviorTree" where
  "tree2 =
     (NewBehaviorTree 9)
       \<lparr>rootNode := AddChild (AddChild (rootNode (NewBehaviorTree 9)) (Some (leaf 2)))
                       (Some (leaf 3))\<rparr>"

definition tree_failed :: "(BNodeState list, unit) BehaviorTree" where
  "tree_failed = fst (BehaviorTree_Execute (script_env [BNODE_STAT_FAIL]) tree2)"

section \<open>The finite-state machine (fsm.go, the later of the two revisions in the file)\<close>

datatype error =
    ErrNameLenZero
  | ErrStatNil
  | ErrActNil
  | ErrTranNil
  | ErrTranNotExist
  | ErrEvtEmpty
  | ErrNoFirstStat
  | ErrNoOldStat
  | ErrFromStatNotExist
  | ErrToStatNotExist

text \<open>
  Interface \<^verbatim>\<open>FSMAction\<close> as the record of its methods: \<open>DoAction\<close> is what the object
  answers when it is called. Interface \<^verbatim>\<open>FSMState\<close> has hooks only, which return
  nothing; a state object is a value of a type \<open>'s\<close>, and the hooks called on it are
  recorded.
\<close>

record 'p FSMAction =
  act_GetName :: string
  DoAction :: "string \<Rightarrow> 'p list \<Rightarrow> bool"

record FSMTransition =
  From :: string
  Event :: string
  To :: string
  Action :: string

definition NewFSMTransition :: "string \<Rightarrow> string \<Rightarrow> string \<Rightarrow> string \<Rightarrow> FSMTransition" where
  "NewFSMTransition from evt to action = \<lparr>From = from, Event = evt, To = to, Action = action\<rparr>"

text \<open>The calls the machine makes on the objects registered with it, in order.\<close>

datatype ('s, 'p) call =
    Call_OnEnter 's string
  | Call_OnUpdate 's int
  | Call_OnExit 's string
  | Call_DoAction "'p FSMAction" string "'p list"

text \<open>Field \<^verbatim>\<open>id\<close> is \<open>fid\<close> here (\<open>id\<close> is the identity function of HOL).\<close>

record ('s, 'p) FSM =
  fid :: "32 word"
  state :: string
  oldStates :: "string list"
  mapName2State :: "string \<rightharpoonup> 's"
  mapName2Action :: "string \<rightharpoonup> 'p FSMAction"
  transitions :: "FSMTransition list"

definition NewFSM :: "32 word \<Rightarrow> ('s, 'p) FSM" where
  "NewFSM i =
     \<lparr>fid = i, state = [], oldStates = [], mapName2State = Map.empty,
      mapName2Action = Map.empty, transitions = []\<rparr>"

definition GetCurState :: "('s, 'p) FSM \<Rightarrow> string" where
  "GetCurState f = state f"

text \<open>A nil interface value is \<open>None\<close>.\<close>

definition AddState :: "('s, 'p) FSM \<Rightarrow> string \<Rightarrow> 's option \<Rightarrow> error option \<times> ('s, 'p) FSM" where
  "AddState f name stat =
     (if length name = 0 then (Some ErrNameLenZero, f)
      else case stat of
        None \<Rightarrow> (Some ErrStatNil, f)
      | Some s \<Rightarrow> (None, f\<lparr>mapName2State := (mapName2State f)(name \<mapsto> s)\<rparr>))"

definition GetState_fsm :: "('s, 'p) FSM \<Rightarrow> string \<Rightarrow> 's option" where
  "GetState_fsm f name = mapName2State f name"

definition RemoveState :: "('s, 'p) FSM \<Rightarrow> string \<Rightarrow> ('s, 'p) FSM" where
  "RemoveState f name =
     (case mapName2State f name of
        Some s \<Rightarrow> f\<lparr>mapName2State := (mapName2State f)(name := None)\<rparr>
      | None \<Rightarrow> f)"

definition AddAction ::
  "('s, 'p) FSM \<Rightarrow> string \<Rightarrow> 'p FSMAction option \<Rightarrow> error option \<times> ('s, 'p) FSM" where
  "AddAction f name act =
     (if length name = 0 then (Some ErrNameLenZero, f)
      else case act of
        None \<Rightarrow> (Some ErrActNil, f)
      | Some a \<Rightarrow> (None, f\<lparr>mapName2Action := (mapName2Action f)(name \<mapsto> a)\<rparr>))"

definition GetAction :: "('s, 'p) FSM \<Rightarrow> string \<Rightarrow> 'p FSMAction option" where
  "GetAction f name = mapName2Action f name"

definition AddTransition ::
  "('s, 'p) FSM \<Rightarrow> string \<Rightarrow> string \<Rightarrow> string \<Rightarrow> string \<Rightarrow> error option \<times> ('s, 'p) FSM" where
  "AddTransition f from evt to action =
     (if length from = 0 then (Some ErrFromStatNotExist, f)
      else if length evt = 0 then (Some ErrEvtEmpty, f)
      else if length to = 0 then (Some ErrToStatNotExist, f)
      else (None, f\<lparr>transitions := transitions f @ [NewFSMTransition from evt to action]\<rparr>))"

text \<open>The loop of \<^verbatim>\<open>GetTransition\<close>: the first record with this \<open>from\<close> and \<open>evt\<close>.\<close>

fun find_transition :: "FSMTransition list \<Rightarrow> string \<Rightarrow> string \<Rightarrow> FSMTransition option" where
  "find_transition [] from evt = None"
| "find_transition (tran # rest) from evt =
     (if From tran = from \<and> Event tran = evt then Some tran
      else find_transition rest from evt)"

definition GetTransition :: "('s, 'p) FSM \<Rightarrow> string \<Rightarrow> string \<Rightarrow> FSMTransition option" where
  "GetTransition f from evt =
     (if length from = 0 then None
      else if length evt = 0 then None
      else find_transition (transitions f) from evt)"

text \<open>
  The operations that call hooks return the error (\<open>None\<close> for nil), the machine, and
  the calls made, in order. A hook does not call back into the machine.
\<close>

definition Start ::
  "('s, 'p) FSM \<Rightarrow> string \<Rightarrow> error option \<times> ('s, 'p) FSM \<times> ('s, 'p) call list" where
  "Start f firstState =
     (if length firstState = 0 then (Some ErrNoFirstStat, f, [])
      else case GetState_fsm f firstState of
        Some stat \<Rightarrow> (None, f\<lparr>state := firstState\<rparr>, [Call_OnEnter stat []])
      | None \<Rightarrow> (None, f, []))"

text \<open>The last four statements of \<^verbatim>\<open>Trigger\<close>, after the calls \<open>pre\<close> already made.\<close>

definition do_transition ::
  "('s, 'p) FSM \<Rightarrow> 's \<Rightarrow> 's \<Rightarrow> FSMTransition \<Rightarrow> ('s, 'p) call list
     \<Rightarrow> error option \<times> ('s, 'p) FSM \<times> ('s, 'p) call list" where
  "do_transition f oldStat newStat triggerTran pre =
     (None,
      f\<lparr>oldStates := oldStates f @ [state f], state := To triggerTran\<rparr>,
      pre @ [Call_OnExit oldStat (To triggerTran), Call_OnEnter newStat (state f)])"

definition Trigger ::
  "('s, 'p) FSM \<Rightarrow> string \<Rightarrow> 'p list \<Rightarrow> error option \<times> ('s, 'p) FSM \<times> ('s, 'p) call list" where
  "Trigger f evt param =
     (if length evt = 0 then (Some ErrEvtEmpty, f, [])
      else if length (state f) = 0 then (Some ErrNoFirstStat, f, [])
      else case GetTransition f (state f) evt of
        None \<Rightarrow> (Some ErrTranNotExist, f, [])
      | Some triggerTran \<Rightarrow>
          (case GetState_fsm f (state f) of
             None \<Rightarrow> (Some ErrFromStatNotExist, f, [])
           | Some oldStat \<Rightarrow>
               (case GetState_fsm f (To triggerTran) of
                  None \<Rightarrow> (Some ErrToStatNotExist, f, [])
                | Some newStat \<Rightarrow>
                    (case GetAction f (Action triggerTran) of
                       Some act \<Rightarrow>
                         if \<not> DoAction act evt param then (None, f, [Call_DoAction act evt param])
                         else do_transition f oldStat newStat triggerTran
                                [Call_DoAction act evt param]
                     | None \<Rightarrow> do_transition f oldStat newStat triggerTran []))))"

definition PopState ::
  "('s, 'p) FSM \<Rightarrow> error option \<times> ('s, 'p) FSM \<times> ('s, 'p) call list" where
  "PopState f =
     (if length (oldStates f) = 0 then (Some ErrNoOldStat, f, [])
      else case GetState_fsm f (state f) of
        None \<Rightarrow> (Some ErrFromStatNotExist, f, [])
      | Some oldStat \<Rightarrow>
          (let idx = length (oldStates f) - 1 in
           case GetState_fsm f (oldStates f ! idx) of
             None \<Rightarrow> (Some ErrToStatNotExist, f, [])
           | Some newStat \<Rightarrow>
               (None,
                f\<lparr>state := oldStates f ! idx, oldStates := take idx (oldStates f)\<rparr>,
                [Call_OnExit oldStat (oldStates f ! idx), Call_OnEnter newStat (state f)])))"

subsection \<open>The error kinds as the specification names them\<close>

text \<open>
  The specification lists ten error kinds, one for each error value of the package, and
  uses two more names, \<open>EmptyFrom\<close> and \<open>EmptyTo\<close>, for \<^verbatim>\<open>AddTransition\<close>. \<open>kind_of\<close>
  gives each error value of the code the name the specification uses for it where
  \<^verbatim>\<open>AddState\<close>, \<^verbatim>\<open>AddAction\<close>, \<^verbatim>\<open>Start\<close>, \<^verbatim>\<open>Trigger\<close> and \<^verbatim>\<open>PopState\<close> return it.
\<close>

datatype error_kind =
    EmptyName
  | NilState
  | NilAction
  | NilTransition
  | TransitionNotFound
  | EmptyEvent
  | NoFirstState
  | NoHistory
  | FromStateNotFound
  | ToStateNotFound
  | EmptyFrom
  | EmptyTo

fun kind_of :: "error \<Rightarrow> error_kind" where
  "kind_of ErrNameLenZero = EmptyName"
| "kind_of ErrStatNil = NilState"
| "kind_of ErrActNil = NilAction"
| "kind_of ErrTranNil = NilTransition"
| "kind_of ErrTranNotExist = TransitionNotFound"
| "kind_of ErrEvtEmpty = EmptyEvent"
| "kind_of ErrNoFirstStat = NoFirstState"
| "kind_of ErrNoOldStat = NoHistory"
| "kind_of ErrFromStatNotExist = FromStateNotFound"
| "kind_of ErrToStatNotExist = ToStateNotFound"

subsection \<open>Example machines\<close>

definition gate_false :: "unit FSMAction" where
  "gate_false = \<lparr>act_GetName = ''gate'', DoAction = (\<lambda>evt param. False)\<rparr>"

definition gate_true :: "unit FSMAction" where
  "gate_true = \<lparr>act_GetName = ''gate'', DoAction = (\<lambda>evt param. True)\<rparr>"

definition fsm_A :: "(string, unit) FSM" where
  "fsm_A = snd (AddState (NewFSM 1) ''A'' (Some ''stateA''))"

definition fsm_AB :: "(string, unit) FSM" where
  "fsm_AB = snd (AddState fsm_A ''B'' (Some ''stateB''))"

text \<open>
  Registers \<open>act\<close> as action "gate", adds the transition (A, go, B, gate) and starts
  the machine in A.
\<close>

definition with_gate :: "(string, unit) FSM \<Rightarrow> unit FSMAction \<Rightarrow> (string, unit) FSM" where
  "with_gate f act =
     fst (snd (Start (snd (AddTransition (snd (AddAction f ''gate'' (Some act)))
                             ''A'' ''go'' ''B'' ''gate'')) ''A''))"

definition fsm_veto :: "(string, unit) FSM" where
  "fsm_veto = with_gate fsm_AB gate_false"

definition fsm_veto_no_target :: "(string, unit) FSM" where
  "fsm_veto_no_target = with_gate fsm_A gate_false"

definition fsm_go :: "(string, unit) FSM" where
  "fsm_go = with_gate fsm_AB gate_true"

definition fsm_go_no_target :: "(string, unit) FSM" where
  "fsm_go_no_target = with_gate fsm_A gate_true"

definition fsm_went :: "(string, unit) FSM" where
  "fsm_went = fst (snd (Trigger fsm_go ''go'' []))"

section \<open>Properties of the behavior tree\<close>

lemmas node_defs =
  IsCompleted_def GetState_def base_IsCompleted_def SetState_def UpdateStep_def
  NewBaseBehaviorNode_def NewControlNode_def NewSequenceNode_def NewSelectNode_def
  NewParallelNode_def NewAgentBNode_def

lemma completed_state:
  "IsCompleted n \<longleftrightarrow> GetState n = BNODE_STAT_SUCC \<or> GetState n = BNODE_STAT_FAIL"
  by (simp add: IsCompleted_def GetState_def base_IsCompleted_def)

subsection \<open>The example trees, evaluated\<close>

lemma leaf_exec:
  "Execute \<lparr>world = s # r, invoked = l\<rparr> (leaf i) =
     (AgentBNode ((NewBaseBehaviorNode i i 0)\<lparr>nstate := s, step := 1\<rparr>) (Some scripted) [],
      \<lparr>world = r, invoked = l @ [NewBaseBehaviorNode i i 0]\<rparr>)"
  by (simp add: leaf_def NewAgentBNode_def scripted_def SetState_def UpdateStep_def
        NewBaseBehaviorNode_def)

lemma leaf_not_completed: "\<not> IsCompleted (leaf i)"
  by (simp add: leaf_def node_defs)

lemma leaf_done_eq:
  "leaf_done i =
     AgentBNode ((NewBaseBehaviorNode i i 0)\<lparr>nstate := BNODE_STAT_SUCC, step := 1\<rparr>) (Some scripted) []"
  by (simp add: leaf_done_def script_env_def leaf_exec)

lemma leaf_done_completed: "IsCompleted (leaf_done i)"
  by (simp add: leaf_done_eq node_defs)

lemma seq3_eq:
  "seq3 = SequenceNode (NewControlNode 1 BNODE_TYPE_SEQUENCE) ([leaf_done 2] @ leaf 3 # [leaf 4])"
  by (simp add: seq3_def NewSequenceNode_def)

lemma par3_eq:
  "par3 = ParallelNode (NewControlNode 1 BNODE_TYPE_PARALLEL) ([leaf 2] @ leaf 3 # [leaf 4])"
  by (simp add: par3_def NewParallelNode_def)

lemma par2_eq:
  "par2 = ParallelNode (NewControlNode 1 BNODE_TYPE_PARALLEL) [leaf 2, leaf 3]"
  by (simp add: par2_def NewParallelNode_def)

lemma tree_failed_eq:
  "tree_failed =
     \<lparr>treeId = 9,
      rootNode = SequenceNode ((NewControlNode 1 BNODE_TYPE_SEQUENCE)\<lparr>nstate := BNODE_STAT_FAIL\<rparr>)
        [AgentBNode ((NewBaseBehaviorNode 2 2 0)\<lparr>nstate := BNODE_STAT_FAIL, step := 1\<rparr>)
           (Some scripted) [],
         leaf 3]\<rparr>"
  by (simp add: tree_failed_def tree2_def NewBehaviorTree_def BehaviorTree_Execute_def
        BTREE_ROOT_NODE_ID_def leaf_def scripted_def script_env_def node_defs)

subsection \<open>The leaf\<close>

text \<open>
  Inside a tree the listener of a completed leaf is not reached: the loops of the three
  composites test \<^verbatim>\<open>child.IsCompleted()\<close> before \<^verbatim>\<open>child.Execute()\<close>. The lemmas below say
  so; the call on a completed leaf is the direct one.
\<close>

lemma calls_extend_refl: "calls_extend e e"
  by (simp add: calls_extend_def new_calls_def)

lemma calls_extend_trans:
  "calls_extend e1 e2 \<Longrightarrow> calls_extend e2 e3 \<Longrightarrow> calls_extend e1 e3"
  unfolding calls_extend_def new_calls_def
  by (metis (no_types, lifting) append.assoc append_eq_conv_conj list_all_append)

lemma calls_extend_leaf:
  "\<not> base_IsCompleted b \<Longrightarrow> calls_extend e \<lparr>world = w, invoked = invoked e @ [b]\<rparr>"
  by (simp add: calls_extend_def new_calls_def)

lemma Execute_calls:
  fixes e :: "'w BEnv" and n :: "('w, 'p) BehaviorNode"
  shows "is_AgentBNode n \<longrightarrow> \<not> IsCompleted n \<Longrightarrow> calls_extend e (snd (Execute e n))"
    and "calls_extend e (snd (snd (sequence_loop e st childLen i cs)))"
    and "calls_extend e (snd (snd (select_loop e st childLen i cs)))"
    and "calls_extend e (snd (snd (snd (parallel_loop e st bFinish (cs :: ('w, 'p) BehaviorNode list)))))"
proof (induction e n and e st childLen i cs and e st childLen i cs and e st bFinish cs
       rule: Execute_sequence_loop_select_loop_parallel_loop.induct)
  case (1 e b)
  show ?case by (simp add: calls_extend_refl)
next
  case (2 e b cs)
  show ?case by (simp add: calls_extend_refl)
next
  case (3 e b listener params)
  then show ?case
    by (auto simp: calls_extend_refl calls_extend_leaf IsCompleted_def split: option.splits prod.splits)
next
  case (4 e b cs)
  then show ?case
    by (auto simp: calls_extend_refl split: prod.splits)
next
  case (5 e b cs)
  then show ?case
    by (auto simp: calls_extend_refl split: prod.splits)
next
  case (6 e b cs)
  then show ?case
    by (auto simp: calls_extend_refl split: prod.splits)
next
  case (7 e st childLen i)
  show ?case by (simp add: calls_extend_refl)
next
  case (8 e st childLen i child rest)
  then show ?case
    by (auto simp: calls_extend_refl split: prod.splits)
next
  case (9 e st childLen i)
  show ?case by (simp add: calls_extend_refl)
next
  case (10 e st childLen i child rest)
  then show ?case
    by (auto simp: calls_extend_refl split: prod.splits)
next
  case (11 e st bFinish)
  show ?case by (simp add: calls_extend_refl)
next
  case (12 e st bFinish child rest)
  show ?case
  proof (cases "IsCompleted child")
    case True
    with "12.IH"(1) show ?thesis by (auto split: prod.splits)
  next
    case False
    obtain c1 e1 where c1: "Execute e child = (c1, e1)" by (cases "Execute e child")
    have a: "calls_extend e e1" using "12.IH"(2) [OF False] False c1 by simp
    show ?thesis
    proof (cases "IsCompleted c1")
      case nc: False
      from "12.IH"(3) [OF False c1 [symmetric] nc]
      have "calls_extend e1 (snd (snd (snd (parallel_loop e1 st False rest))))" .
      with a have "calls_extend e (snd (snd (snd (parallel_loop e1 st False rest))))"
        by (rule calls_extend_trans)
      then show ?thesis using False c1 nc by (auto split: prod.splits)
    next
      case cc: True
      show ?thesis
      proof (cases "GetState c1 = BNODE_STAT_FAIL")
        case True
        then show ?thesis using False c1 cc a by simp
      next
        case nf: False
        from "12.IH"(4) [OF False c1 [symmetric]] cc nf
        have "calls_extend e1 (snd (snd (snd (parallel_loop e1 st bFinish rest))))" by simp
        with a have "calls_extend e (snd (snd (snd (parallel_loop e1 st bFinish rest))))"
          by (rule calls_extend_trans)
        then show ?thesis using False c1 cc nf by (auto split: prod.splits)
      qed
    qed
  qed
qed

lemma sequence_loop_keeps:
  "sequence_loop e st childLen i cs = (cs', st', e')
     \<Longrightarrow> length cs' = length cs \<and> (\<forall>k < length cs. IsCompleted (cs ! k) \<longrightarrow> cs' ! k = cs ! k)"
proof (induction cs arbitrary: i cs' st' e')
  case Nil
  then show ?case by simp
next
  case (Cons c cs)
  show ?case
  proof (cases "IsCompleted c")
    case True
    obtain r s1 e1 where r: "sequence_loop e st childLen (i + 1) cs = (r, s1, e1)"
      by (cases "sequence_loop e st childLen (i + 1) cs")
    with True Cons.prems have eq: "cs' = c # r" by simp
    from Cons.IH [OF r] show ?thesis
      by (auto simp: eq nth_Cons split: nat.splits)
  next
    case False
    obtain c1 e1 where c1: "Execute e c = (c1, e1)" by (cases "Execute e c")
    with False Cons.prems have eq: "cs' = c1 # cs" by (auto split: if_splits)
    show ?thesis using False by (auto simp: eq nth_Cons split: nat.splits)
  qed
qed

lemma select_loop_keeps:
  "select_loop e st childLen i cs = (cs', st', e')
     \<Longrightarrow> length cs' = length cs \<and> (\<forall>k < length cs. IsCompleted (cs ! k) \<longrightarrow> cs' ! k = cs ! k)"
proof (induction cs arbitrary: i cs' st' e')
  case Nil
  then show ?case by simp
next
  case (Cons c cs)
  show ?case
  proof (cases "IsCompleted c")
    case True
    obtain r s1 e1 where r: "select_loop e st childLen (i + 1) cs = (r, s1, e1)"
      by (cases "select_loop e st childLen (i + 1) cs")
    with True Cons.prems have eq: "cs' = c # r" by simp
    from Cons.IH [OF r] show ?thesis
      by (auto simp: eq nth_Cons split: nat.splits)
  next
    case False
    obtain c1 e1 where c1: "Execute e c = (c1, e1)" by (cases "Execute e c")
    with False Cons.prems have eq: "cs' = c1 # cs" by (auto split: if_splits)
    show ?thesis using False by (auto simp: eq nth_Cons split: nat.splits)
  qed
qed

lemma parallel_loop_keeps:
  "parallel_loop e st bFinish cs = (cs', st', bFinish', e')
     \<Longrightarrow> length cs' = length cs \<and> (\<forall>k < length cs. IsCompleted (cs ! k) \<longrightarrow> cs' ! k = cs ! k)"
proof (induction cs arbitrary: e bFinish cs' st' bFinish' e')
  case Nil
  then show ?case by simp
next
  case (Cons c cs)
  show ?case
  proof (cases "IsCompleted c")
    case True
    obtain r s1 f1 e1 where r: "parallel_loop e st bFinish cs = (r, s1, f1, e1)"
      by (cases "parallel_loop e st bFinish cs")
    with True Cons.prems have eq: "cs' = c # r" by simp
    from Cons.IH [OF r] show ?thesis
      by (auto simp: eq nth_Cons split: nat.splits)
  next
    case False
    obtain c1 e1 where c1: "Execute e c = (c1, e1)" by (cases "Execute e c")
    obtain r s1 f1 e2 where r: "parallel_loop e1 st False cs = (r, s1, f1, e2)"
      by (cases "parallel_loop e1 st False cs")
    obtain r' s1' f1' e2' where r': "parallel_loop e1 st bFinish cs = (r', s1', f1', e2')"
      by (cases "parallel_loop e1 st bFinish cs")
    from False c1 r r' Cons.prems have "cs' = c1 # r \<or> cs' = c1 # cs \<or> cs' = c1 # r'"
      by (auto split: if_splits)
    with Cons.IH [OF r] Cons.IH [OF r'] False show ?thesis
      by (auto simp: nth_Cons split: nat.splits)
  qed
qed

lemma composite_keeps:
  assumes "n = SequenceNode b cs \<or> n = SelectNode b cs \<or> n = ParallelNode b cs"
    and "Execute e n = (n', e')"
  shows "length (subNodes n') = length cs
         \<and> (\<forall>k < length cs. IsCompleted (cs ! k) \<longrightarrow> subNodes n' ! k = cs ! k)"
proof (cases "base_IsCompleted b")
  case True
  with assms have "n' = n" by auto
  with assms(1) show ?thesis by auto
next
  case False
  from assms(1) consider (seq) "n = SequenceNode b cs" | (sel) "n = SelectNode b cs"
    | (par) "n = ParallelNode b cs" by blast
  then show ?thesis
  proof cases
    case seq
    obtain r st e1 where l: "sequence_loop e BNODE_STAT_EXECUTING (int (length cs)) 0 cs = (r, st, e1)"
      by (cases "sequence_loop e BNODE_STAT_EXECUTING (int (length cs)) 0 cs")
    with False seq assms(2) have "subNodes n' = r" by auto
    with sequence_loop_keeps [OF l] show ?thesis by simp
  next
    case sel
    obtain r st e1 where l: "select_loop e BNODE_STAT_EXECUTING (int (length cs)) 0 cs = (r, st, e1)"
      by (cases "select_loop e BNODE_STAT_EXECUTING (int (length cs)) 0 cs")
    with False sel assms(2) have "subNodes n' = r" by auto
    with select_loop_keeps [OF l] show ?thesis by simp
  next
    case par
    obtain r st bf e1 where l: "parallel_loop e BNODE_STAT_EXECUTING True cs = (r, st, bf, e1)"
      by (cases "parallel_loop e BNODE_STAT_EXECUTING True cs")
    with False par assms(2) have "subNodes n' = r" by auto
    with parallel_loop_keeps [OF l] show ?thesis by simp
  qed
qed

lemma composite_calls:
  assumes "n = SequenceNode b cs \<or> n = SelectNode b cs \<or> n = ParallelNode b cs"
    and "Execute e n = (n', e')"
  shows "calls_extend e e'"
  using assms Execute_calls(1) [of n e] by auto

text \<open>
  Claim C4: \<^verbatim>\<open>Execute\<close> on a leaf that is already completed does not call the listener
  and does not change the state of the node. \<^verbatim>\<open>AgentBNode.Execute\<close> does not keep this: it
  tests the listener for nil and nothing else, where \<^verbatim>\<open>Execute\<close> of the Sequence, Selector
  and Parallel nodes each begin with \<^verbatim>\<open>if n.IsCompleted() { return }\<close>. Here leaf 2 is
  executed twice, with a listener that answers Succeeded and then Failed. After the
  first call the leaf is completed (Succeeded, one listener call). The second call, on
  the completed leaf, calls the listener again, stores Failed, and the step counter
  the listener advances is 2.
\<close>

theorem AgentBNode_Execute_on_completed_leaf:
  "IsCompleted (fst (Execute_times (Suc 0) (script_env [BNODE_STAT_SUCC, BNODE_STAT_FAIL]) (leaf 2)))
   \<and> GetState (fst (Execute_times (Suc 0) (script_env [BNODE_STAT_SUCC, BNODE_STAT_FAIL]) (leaf 2)))
       = BNODE_STAT_SUCC
   \<and> length (invoked (snd (Execute_times (Suc 0) (script_env [BNODE_STAT_SUCC, BNODE_STAT_FAIL]) (leaf 2))))
       = 1
   \<and> GetState (fst (Execute_times (Suc (Suc 0)) (script_env [BNODE_STAT_SUCC, BNODE_STAT_FAIL]) (leaf 2)))
       = BNODE_STAT_FAIL
   \<and> length (invoked (snd (Execute_times (Suc (Suc 0)) (script_env [BNODE_STAT_SUCC, BNODE_STAT_FAIL]) (leaf 2))))
       = 2
   \<and> GetStep (fst (Execute_times (Suc (Suc 0)) (script_env [BNODE_STAT_SUCC, BNODE_STAT_FAIL]) (leaf 2)))
       = 2"
  by (simp add: script_env_def leaf_def NewAgentBNode_def scripted_def node_defs GetStep_def)

subsection \<open>Sequence\<close>

lemma sequence_loop_first:
  assumes "\<forall>c \<in> set pre. IsCompleted c" and "\<not> IsCompleted child"
    and "Execute e child = (child', e')"
  shows "sequence_loop e st childLen i (pre @ child # post) =
           (pre @ child' # post,
            (if \<not> IsCompleted child' then st
             else if GetState child' = BNODE_STAT_FAIL then BNODE_STAT_FAIL
             else if i + int (length pre) = childLen - 1 then BNODE_STAT_SUCC
             else st),
            e')"
  using assms(1)
proof (induction pre arbitrary: i)
  case Nil
  show ?case using assms(2,3) by simp
next
  case (Cons c pre)
  then have "sequence_loop e st childLen (i + 1) (pre @ child # post) =
           (pre @ child' # post,
            (if \<not> IsCompleted child' then st
             else if GetState child' = BNODE_STAT_FAIL then BNODE_STAT_FAIL
             else if (i + 1) + int (length pre) = childLen - 1 then BNODE_STAT_SUCC
             else st),
            e')"
    by simp
  moreover have "IsCompleted c" using Cons.prems by simp
  ultimately show ?case by (simp add: add.assoc add.commute)
qed

text \<open>
  Claim C2: let a Sequence node be not completed, and let its children be \<open>pre\<close>, all
  completed, then \<open>child\<close>, not completed, then \<open>post\<close>. \<^verbatim>\<open>Execute\<close> executes \<open>child\<close> and
  nothing else: \<open>pre\<close> and \<open>post\<close> are as they were, and the environment is the one the
  execution of \<open>child\<close> left. The state of the sequence is Failed if the child is now
  Failed, Succeeded if the child is now Succeeded and was the last child, and
  Executing otherwise (the child not completed, or succeeded with children after it).
\<close>

theorem SequenceNode_Execute_first_pending:
  assumes "\<not> base_IsCompleted b"
    and "\<forall>c \<in> set pre. IsCompleted c"
    and "\<not> IsCompleted child"
    and "Execute e child = (child', e')"
  shows "Execute e (SequenceNode b (pre @ child # post)) =
           (SequenceNode
              (b\<lparr>nstate :=
                   (if GetState child' = BNODE_STAT_FAIL then BNODE_STAT_FAIL
                    else if GetState child' = BNODE_STAT_SUCC \<and> post = [] then BNODE_STAT_SUCC
                    else BNODE_STAT_EXECUTING)\<rparr>)
              (pre @ child' # post),
            e')"
proof -
  have "sequence_loop e BNODE_STAT_EXECUTING (int (length (pre @ child # post))) 0
          (pre @ child # post) =
        (pre @ child' # post,
         (if GetState child' = BNODE_STAT_FAIL then BNODE_STAT_FAIL
          else if GetState child' = BNODE_STAT_SUCC \<and> post = [] then BNODE_STAT_SUCC
          else BNODE_STAT_EXECUTING),
         e')"
    by (simp add: sequence_loop_first [OF assms(2,3,4)] completed_state)
  then show ?thesis using assms(1) by simp
qed

text \<open>At \<open>seq3\<close>: the first child is skipped, the second executed, the third untouched.\<close>

theorem SequenceNode_Execute_first_pending_witness:
  "\<not> base_IsCompleted (NewControlNode 1 BNODE_TYPE_SEQUENCE)
   \<and> IsCompleted (leaf_done 2)
   \<and> \<not> IsCompleted (leaf 3)
   \<and> Execute (script_env [BNODE_STAT_SUCC]) (leaf 3) =
        (AgentBNode ((NewBaseBehaviorNode 3 3 0)\<lparr>nstate := BNODE_STAT_SUCC, step := 1\<rparr>)
           (Some scripted) [],
         \<lparr>world = [], invoked = [NewBaseBehaviorNode 3 3 0]\<rparr>)
   \<and> Execute (script_env [BNODE_STAT_SUCC]) seq3 =
        (SequenceNode ((NewControlNode 1 BNODE_TYPE_SEQUENCE)\<lparr>nstate := BNODE_STAT_EXECUTING\<rparr>)
           [leaf_done 2,
            AgentBNode ((NewBaseBehaviorNode 3 3 0)\<lparr>nstate := BNODE_STAT_SUCC, step := 1\<rparr>)
              (Some scripted) [],
            leaf 4],
         \<lparr>world = [], invoked = [NewBaseBehaviorNode 3 3 0]\<rparr>)"
proof -
  have h1: "\<not> base_IsCompleted (NewControlNode 1 BNODE_TYPE_SEQUENCE)"
    by (simp add: node_defs)
  have h2: "\<forall>c \<in> set [leaf_done 2]. IsCompleted c"
    by (simp add: leaf_done_completed)
  have h3: "\<not> IsCompleted (leaf 3)"
    by (rule leaf_not_completed)
  have h4: "Execute (script_env [BNODE_STAT_SUCC]) (leaf 3) =
        (AgentBNode ((NewBaseBehaviorNode 3 3 0)\<lparr>nstate := BNODE_STAT_SUCC, step := 1\<rparr>)
           (Some scripted) [],
         \<lparr>world = [], invoked = [NewBaseBehaviorNode 3 3 0]\<rparr>)"
    by (simp add: script_env_def leaf_exec)
  from SequenceNode_Execute_first_pending [OF h1 h2 h3 h4, of "[leaf 4]"] h1 h2 h3 h4
  show ?thesis
    by (simp add: seq3_eq GetState_def leaf_done_completed)
qed

subsection \<open>Parallel\<close>

lemma execute_each_length: "execute_each e cs = (cs', e') \<Longrightarrow> length cs' = length cs"
  by (induction cs arbitrary: e cs' e') (auto split: if_splits prod.splits)

lemma parallel_loop_all:
  assumes "execute_each e cs = (cs', e')" and "none_failed cs cs'"
  shows "parallel_loop e st bFinish cs = (cs', st, bFinish \<and> (\<forall>c \<in> set cs'. IsCompleted c), e')"
  using assms
proof (induction cs arbitrary: e cs' bFinish e')
  case Nil
  then show ?case by simp
next
  case (Cons c cs)
  show ?case
  proof (cases "IsCompleted c")
    case True
    obtain r e1 where r: "execute_each e cs = (r, e1)" by (cases "execute_each e cs")
    with True Cons.prems have eq: "cs' = c # r" "e' = e1" and nf: "none_failed cs r"
      by auto
    from Cons.IH [OF r nf] True show ?thesis
      by (auto simp: eq)
  next
    case False
    obtain c1 e1 where c1: "Execute e c = (c1, e1)" by (cases "Execute e c")
    obtain r e2 where r: "execute_each e1 cs = (r, e2)" by (cases "execute_each e1 cs")
    from False c1 r Cons.prems have eq: "cs' = c1 # r" "e' = e2"
      and nf: "none_failed cs r" and c1ok: "GetState c1 \<noteq> BNODE_STAT_FAIL"
      by auto
    from Cons.IH [OF r nf] False c1 c1ok show ?thesis
      by (auto simp: eq)
  qed
qed

lemma parallel_loop_fail:
  assumes "execute_each e pre = (pre', e1)" and "none_failed pre pre'"
    and "\<not> IsCompleted child" and "Execute e1 child = (child', e2)"
    and "GetState child' = BNODE_STAT_FAIL"
  shows "parallel_loop e st bFinish (pre @ child # post) =
           (pre' @ child' # post, BNODE_STAT_FAIL,
            bFinish \<and> (\<forall>c \<in> set pre'. IsCompleted c), e2)"
  using assms(1,2)
proof (induction pre arbitrary: e pre' bFinish)
  case Nil
  then show ?case using assms(3,4,5) by (simp add: completed_state)
next
  case (Cons c cs)
  show ?case
  proof (cases "IsCompleted c")
    case True
    obtain r e3 where r: "execute_each e cs = (r, e3)" by (cases "execute_each e cs")
    with True Cons.prems have eq: "pre' = c # r" "e1 = e3" and nf: "none_failed cs r"
      by auto
    from Cons.IH [OF r [folded eq(2)] nf] True show ?thesis
      by (auto simp: eq)
  next
    case False
    obtain c1 e3 where c1: "Execute e c = (c1, e3)" by (cases "Execute e c")
    obtain r e4 where r: "execute_each e3 cs = (r, e4)" by (cases "execute_each e3 cs")
    from False c1 r Cons.prems have eq: "pre' = c1 # r" "e1 = e4"
      and nf: "none_failed cs r" and c1ok: "GetState c1 \<noteq> BNODE_STAT_FAIL"
      by auto
    from Cons.IH [OF r [folded eq(2)] nf] False c1 c1ok show ?thesis
      by (auto simp: eq)
  qed
qed

text \<open>
  Claim C3, for a Parallel node that is not completed. If executing every child that is
  not completed, in order, makes none of them Failed, then \<^verbatim>\<open>Execute\<close> does exactly that,
  and the node is Succeeded if every child is then completed and Executing otherwise.
  If the children are \<open>pre\<close>, whose execution makes none of them Failed, then \<open>child\<close>,
  which is not completed and is Failed after its execution, then \<open>post\<close>, the node is
  Failed, \<open>post\<close> is as it was, and the environment is the one the execution of \<open>child\<close>
  left: nothing after \<open>child\<close> is executed.
\<close>

theorem ParallelNode_Execute_tick:
  "(\<not> base_IsCompleted b \<and> execute_each e cs = (cs', e') \<and> none_failed cs cs'
      \<longrightarrow> Execute e (ParallelNode b cs) =
            (ParallelNode
               (b\<lparr>nstate := (if \<forall>c \<in> set cs'. IsCompleted c then BNODE_STAT_SUCC
                              else BNODE_STAT_EXECUTING)\<rparr>)
               cs', e'))
   \<and> (\<not> base_IsCompleted b \<and> execute_each e pre = (pre', e1) \<and> none_failed pre pre'
        \<and> \<not> IsCompleted child \<and> Execute e1 child = (child', e2)
        \<and> GetState child' = BNODE_STAT_FAIL
      \<longrightarrow> Execute e (ParallelNode b (pre @ child # post)) =
            (ParallelNode (b\<lparr>nstate := BNODE_STAT_FAIL\<rparr>) (pre' @ child' # post), e2))"
  by (auto simp: parallel_loop_all parallel_loop_fail)

text \<open>
  At \<open>par2\<close>, whose two children succeed in one tick, and at \<open>par3\<close>, whose second child
  fails in the first tick: the third child is not executed.
\<close>

theorem ParallelNode_Execute_tick_witness:
  "\<not> base_IsCompleted (NewControlNode 1 BNODE_TYPE_PARALLEL)
   \<and> Execute (script_env [BNODE_STAT_SUCC, BNODE_STAT_SUCC]) par2 =
        (ParallelNode ((NewControlNode 1 BNODE_TYPE_PARALLEL)\<lparr>nstate := BNODE_STAT_SUCC\<rparr>)
           [AgentBNode ((NewBaseBehaviorNode 2 2 0)\<lparr>nstate := BNODE_STAT_SUCC, step := 1\<rparr>)
              (Some scripted) [],
            AgentBNode ((NewBaseBehaviorNode 3 3 0)\<lparr>nstate := BNODE_STAT_SUCC, step := 1\<rparr>)
              (Some scripted) []],
         \<lparr>world = [], invoked = [NewBaseBehaviorNode 2 2 0, NewBaseBehaviorNode 3 3 0]\<rparr>)
   \<and> Execute (script_env [BNODE_STAT_EXECUTING, BNODE_STAT_FAIL, BNODE_STAT_SUCC]) par3 =
        (ParallelNode ((NewControlNode 1 BNODE_TYPE_PARALLEL)\<lparr>nstate := BNODE_STAT_FAIL\<rparr>)
           [AgentBNode ((NewBaseBehaviorNode 2 2 0)\<lparr>nstate := BNODE_STAT_EXECUTING, step := 1\<rparr>)
              (Some scripted) [],
            AgentBNode ((NewBaseBehaviorNode 3 3 0)\<lparr>nstate := BNODE_STAT_FAIL, step := 1\<rparr>)
              (Some scripted) [],
            leaf 4],
         \<lparr>world = [BNODE_STAT_SUCC],
          invoked = [NewBaseBehaviorNode 2 2 0, NewBaseBehaviorNode 3 3 0]\<rparr>)"
proof -
  let ?b = "NewControlNode 1 BNODE_TYPE_PARALLEL"
  let ?l2s = "AgentBNode ((NewBaseBehaviorNode 2 2 0)\<lparr>nstate := BNODE_STAT_SUCC, step := 1\<rparr>)
                (Some scripted) [] :: (BNodeState list, unit) BehaviorNode"
  let ?l3s = "AgentBNode ((NewBaseBehaviorNode 3 3 0)\<lparr>nstate := BNODE_STAT_SUCC, step := 1\<rparr>)
                (Some scripted) [] :: (BNodeState list, unit) BehaviorNode"
  let ?l2e = "AgentBNode ((NewBaseBehaviorNode 2 2 0)\<lparr>nstate := BNODE_STAT_EXECUTING, step := 1\<rparr>)
                (Some scripted) [] :: (BNodeState list, unit) BehaviorNode"
  let ?l3f = "AgentBNode ((NewBaseBehaviorNode 3 3 0)\<lparr>nstate := BNODE_STAT_FAIL, step := 1\<rparr>)
                (Some scripted) [] :: (BNodeState list, unit) BehaviorNode"
  let ?e0 = "script_env [BNODE_STAT_SUCC, BNODE_STAT_SUCC]"
  let ?e0' = "\<lparr>world = [], invoked = [NewBaseBehaviorNode 2 2 0, NewBaseBehaviorNode 3 3 0]\<rparr>
                :: BNodeState list BEnv"
  let ?e1 = "script_env [BNODE_STAT_EXECUTING, BNODE_STAT_FAIL, BNODE_STAT_SUCC]"
  let ?e2 = "\<lparr>world = [BNODE_STAT_FAIL, BNODE_STAT_SUCC], invoked = [NewBaseBehaviorNode 2 2 0]\<rparr>
                :: BNodeState list BEnv"
  let ?e3 = "\<lparr>world = [BNODE_STAT_SUCC],
              invoked = [NewBaseBehaviorNode 2 2 0, NewBaseBehaviorNode 3 3 0]\<rparr>
                :: BNodeState list BEnv"
  have b: "\<not> base_IsCompleted ?b"
    by (simp add: node_defs)
  have a1: "execute_each ?e0 [leaf 2, leaf 3] = ([?l2s, ?l3s], ?e0')"
    by (simp add: leaf_not_completed script_env_def leaf_exec)
  have a2: "none_failed [leaf 2, leaf 3] [?l2s, ?l3s]"
    by (simp add: GetState_def)
  have a3: "\<forall>c \<in> set [?l2s, ?l3s]. IsCompleted c"
    by (simp add: node_defs)
  have f1: "execute_each ?e1 [leaf 2] = ([?l2e], ?e2)"
    by (simp add: leaf_not_completed script_env_def leaf_exec)
  have f2: "none_failed [leaf 2] [?l2e]"
    by (simp add: GetState_def)
  have f3: "\<not> IsCompleted (leaf 3)"
    by (rule leaf_not_completed)
  have f4: "Execute ?e2 (leaf 3) = (?l3f, ?e3)"
    by (simp add: leaf_exec)
  have f5: "GetState ?l3f = BNODE_STAT_FAIL"
    by (simp add: GetState_def)
  have "\<not> base_IsCompleted ?b \<and> execute_each ?e0 [leaf 2, leaf 3] = ([?l2s, ?l3s], ?e0')
          \<and> none_failed [leaf 2, leaf 3] [?l2s, ?l3s]
        \<longrightarrow> Execute ?e0 (ParallelNode ?b [leaf 2, leaf 3]) =
            (ParallelNode
               (?b\<lparr>nstate := (if \<forall>c \<in> set [?l2s, ?l3s]. IsCompleted c then BNODE_STAT_SUCC
                               else BNODE_STAT_EXECUTING)\<rparr>)
               [?l2s, ?l3s], ?e0')"
    using ParallelNode_Execute_tick [where b = ?b and e = ?e0 and cs = "[leaf 2, leaf 3]" and cs' = "[?l2s, ?l3s]"
         and e' = ?e0']
    by (rule conjunct1)
  with b a1 a2 have "Execute ?e0 (ParallelNode ?b [leaf 2, leaf 3]) =
            (ParallelNode
               (?b\<lparr>nstate := (if \<forall>c \<in> set [?l2s, ?l3s]. IsCompleted c then BNODE_STAT_SUCC
                               else BNODE_STAT_EXECUTING)\<rparr>)
               [?l2s, ?l3s], ?e0')"
    by blast
  then have A: "Execute ?e0 par2 =
                  (ParallelNode (?b\<lparr>nstate := BNODE_STAT_SUCC\<rparr>) [?l2s, ?l3s], ?e0')"
    using a3 by (simp add: par2_eq del: Execute.simps)
  have "\<not> base_IsCompleted ?b \<and> execute_each ?e1 [leaf 2] = ([?l2e], ?e2)
          \<and> none_failed [leaf 2] [?l2e] \<and> \<not> IsCompleted (leaf 3)
          \<and> Execute ?e2 (leaf 3) = (?l3f, ?e3) \<and> GetState ?l3f = BNODE_STAT_FAIL
        \<longrightarrow> Execute ?e1 (ParallelNode ?b ([leaf 2] @ leaf 3 # [leaf 4])) =
            (ParallelNode (?b\<lparr>nstate := BNODE_STAT_FAIL\<rparr>) ([?l2e] @ ?l3f # [leaf 4]), ?e3)"
    using ParallelNode_Execute_tick
      [where b = ?b and e = ?e1 and pre = "[leaf 2]" and pre' = "[?l2e]" and ?e1.0 = ?e2
         and child = "leaf 3" and child' = ?l3f and ?e2.0 = ?e3 and post = "[leaf 4]"]
    by (rule conjunct2)
  with b f1 f2 f3 f4 f5
  have "Execute ?e1 (ParallelNode ?b ([leaf 2] @ leaf 3 # [leaf 4])) =
            (ParallelNode (?b\<lparr>nstate := BNODE_STAT_FAIL\<rparr>) ([?l2e] @ ?l3f # [leaf 4]), ?e3)"
    by blast
  then have B: "Execute ?e1 par3 =
             (ParallelNode (?b\<lparr>nstate := BNODE_STAT_FAIL\<rparr>) [?l2e, ?l3f, leaf 4], ?e3)"
    by (simp add: par3_eq del: Execute.simps)
  from b A B show ?thesis by simp
qed

subsection \<open>Completed and empty composites, the tree\<close>

lemma Execute_completed:
  "IsCompleted n \<Longrightarrow> \<not> is_AgentBNode n \<Longrightarrow> Execute e n = (n, e)"
  by (cases n) (simp_all add: IsCompleted_def)

lemma Execute_times_completed:
  "IsCompleted n \<Longrightarrow> \<not> is_AgentBNode n \<Longrightarrow> Execute_times k e n = (n, e)"
  by (induction k) (simp_all add: Execute_completed)

text \<open>
  Claim C7: for every behavior tree whose root is Succeeded or Failed, any number of
  calls of the tree's \<^verbatim>\<open>Execute\<close> leaves the whole tree as it was (every state and every
  step counter) and calls no listener. The root of a tree is the Sequence node that
  \<^verbatim>\<open>NewBehaviorTree\<close> made (the field is unexported and never assigned again); the theorem
  holds for every root that is not a leaf with a listener.
\<close>

theorem BehaviorTree_Execute_completed:
  assumes "BehaviorTree_IsCompleted t" and "\<not> is_AgentBNode (rootNode t)"
  shows "BehaviorTree_Execute_times k e t = (t, e)"
proof (induction k)
  case 0
  show ?case by simp
next
  case (Suc k)
  have "BehaviorTree_Execute e t = (t, e)"
    using assms by (simp add: BehaviorTree_Execute_def BehaviorTree_IsCompleted_def Execute_completed)
  with Suc show ?case by simp
qed

text \<open>At \<open>tree_failed\<close>, a tree of two leaves whose first leaf failed in the first tick.\<close>

theorem BehaviorTree_Execute_completed_witness:
  "BehaviorTree_IsCompleted tree_failed
   \<and> \<not> is_AgentBNode (rootNode tree_failed)
   \<and> BehaviorTree_GetState tree_failed = BNODE_STAT_FAIL
   \<and> BehaviorTree_Execute_times 3 (script_env [BNODE_STAT_SUCC, BNODE_STAT_SUCC]) tree_failed
       = (tree_failed, script_env [BNODE_STAT_SUCC, BNODE_STAT_SUCC])"
proof -
  have h1: "BehaviorTree_IsCompleted tree_failed"
    by (simp add: tree_failed_eq BehaviorTree_IsCompleted_def IsCompleted_def base_IsCompleted_def)
  have h2: "\<not> is_AgentBNode (rootNode tree_failed)"
    by (simp add: tree_failed_eq)
  have h3: "BehaviorTree_GetState tree_failed = BNODE_STAT_FAIL"
    by (simp add: tree_failed_eq BehaviorTree_GetState_def GetState_def)
  from BehaviorTree_Execute_completed [OF h1 h2] h1 h2 h3 show ?thesis
    by simp
qed

lemma empty_sequence_times:
  "\<not> base_IsCompleted b \<Longrightarrow>
     Execute_times (Suc k) e (SequenceNode b []) = (SequenceNode (b\<lparr>nstate := BNODE_STAT_EXECUTING\<rparr>) [], e)"
proof (induction k arbitrary: b)
  case 0
  then show ?case by simp
next
  case (Suc k)
  have "\<not> base_IsCompleted (b\<lparr>nstate := BNODE_STAT_EXECUTING\<rparr>)"
    by (simp add: base_IsCompleted_def)
  from Suc.IH [OF this] Suc.prems show ?case by simp
qed

lemma empty_select_times:
  "\<not> base_IsCompleted b \<Longrightarrow>
     Execute_times (Suc k) e (SelectNode b []) = (SelectNode (b\<lparr>nstate := BNODE_STAT_EXECUTING\<rparr>) [], e)"
proof (induction k arbitrary: b)
  case 0
  then show ?case by simp
next
  case (Suc k)
  have "\<not> base_IsCompleted (b\<lparr>nstate := BNODE_STAT_EXECUTING\<rparr>)"
    by (simp add: base_IsCompleted_def)
  from Suc.IH [OF this] Suc.prems show ?case by simp
qed

lemma new_root_not_completed: "\<not> base_IsCompleted (NewControlNode nid ty)"
  by (simp add: NewControlNode_def NewBaseBehaviorNode_def base_IsCompleted_def)

lemma tree_times_root:
  "BehaviorTree_Execute_times k e t =
     (t\<lparr>rootNode := fst (Execute_times k e (rootNode t))\<rparr>, snd (Execute_times k e (rootNode t)))"
  by (induction k arbitrary: e t) (auto simp: BehaviorTree_Execute_def split: prod.splits)

lemma new_tree_times:
  "BehaviorTree_Execute_times (Suc k) e (NewBehaviorTree tid) =
     (\<lparr>treeId = tid,
       rootNode = SequenceNode ((NewControlNode BTREE_ROOT_NODE_ID BNODE_TYPE_SEQUENCE)
                                  \<lparr>nstate := BNODE_STAT_EXECUTING\<rparr>) []\<rparr>, e)"
proof -
  have "Execute_times (Suc k) e
          (SequenceNode (NewControlNode BTREE_ROOT_NODE_ID BNODE_TYPE_SEQUENCE) [] :: ('a, 'b) BehaviorNode) =
        (SequenceNode ((NewControlNode BTREE_ROOT_NODE_ID BNODE_TYPE_SEQUENCE)
                         \<lparr>nstate := BNODE_STAT_EXECUTING\<rparr>) [], e)"
    by (rule empty_sequence_times [OF new_root_not_completed])
  then show ?thesis
    unfolding tree_times_root NewBehaviorTree_def NewSequenceNode_def
    by (simp del: Execute_times.simps)
qed

text \<open>
  A childless Sequence that is already completed stays as it is: \<open>seq_emptied\<close> succeeded
  when its only child did, the child was removed, and \<^verbatim>\<open>Execute\<close> returns at its first
  test, so the state is Succeeded and not Executing.
\<close>

theorem empty_composites_counterexample:
  "seq_emptied = SequenceNode ((NewControlNode 1 BNODE_TYPE_SEQUENCE)\<lparr>nstate := BNODE_STAT_SUCC\<rparr>) []
   \<and> subNodes seq_emptied = []
   \<and> GetState seq_emptied = BNODE_STAT_SUCC
   \<and> Execute (script_env []) seq_emptied = (seq_emptied, script_env [])
   \<and> GetState (fst (Execute (script_env []) seq_emptied)) = BNODE_STAT_SUCC
   \<and> GetState (fst (Execute (script_env []) seq_emptied)) \<noteq> BNODE_STAT_EXECUTING"
  by (simp add: seq_emptied_def seq_one_def leaf_def scripted_def script_env_def GetID_def
        node_defs)

text \<open>
  Claim C10, amended: a Sequence or Selector node without children
  \<^emph>\<open>that is not already completed\<close> is Executing after every call of \<^verbatim>\<open>Execute\<close>, however
  many, and so never Succeeded or Failed; a Parallel node without children that is not
  already completed is Succeeded after the first call. The nodes \<^verbatim>\<open>NewSequenceNode\<close>,
  \<^verbatim>\<open>NewSelectNode\<close> and \<^verbatim>\<open>NewParallelNode\<close> make are such nodes. Consequently a new
  behavior tree, whose root is an empty Sequence, is not completed after any number of
  calls of \<^verbatim>\<open>Execute\<close>, and Executing after one call or more.
\<close>

theorem empty_composites:
  "(\<not> base_IsCompleted b \<longrightarrow>
      Execute_times (Suc k) e (SequenceNode b []) =
        (SequenceNode (b\<lparr>nstate := BNODE_STAT_EXECUTING\<rparr>) [], e)
      \<and> Execute_times (Suc k) e (SelectNode b []) =
        (SelectNode (b\<lparr>nstate := BNODE_STAT_EXECUTING\<rparr>) [], e)
      \<and> Execute e (ParallelNode b []) = (ParallelNode (b\<lparr>nstate := BNODE_STAT_SUCC\<rparr>) [], e))
   \<and> GetState (fst (Execute_times (Suc k) e (NewSequenceNode nid))) = BNODE_STAT_EXECUTING
   \<and> GetState (fst (Execute_times (Suc k) e (NewSelectNode nid))) = BNODE_STAT_EXECUTING
   \<and> GetState (fst (Execute e (NewParallelNode nid))) = BNODE_STAT_SUCC
   \<and> \<not> BehaviorTree_IsCompleted (fst (BehaviorTree_Execute_times k e (NewBehaviorTree tid)))
   \<and> BehaviorTree_GetState (fst (BehaviorTree_Execute_times (Suc k) e (NewBehaviorTree tid)))
       = BNODE_STAT_EXECUTING"
proof (intro conjI impI)
  show "\<not> BehaviorTree_IsCompleted (fst (BehaviorTree_Execute_times k e (NewBehaviorTree tid)))"
  proof (cases k)
    case 0
    then show ?thesis
      by (simp add: BehaviorTree_IsCompleted_def IsCompleted_def NewBehaviorTree_def
            NewSequenceNode_def new_root_not_completed)
  next
    case (Suc j)
    then show ?thesis
      by (simp only: new_tree_times)
         (simp add: BehaviorTree_IsCompleted_def IsCompleted_def base_IsCompleted_def)
  qed
  show "BehaviorTree_GetState (fst (BehaviorTree_Execute_times (Suc k) e (NewBehaviorTree tid)))
       = BNODE_STAT_EXECUTING"
    by (simp only: new_tree_times) (simp add: BehaviorTree_GetState_def GetState_def)
  show "GetState (fst (Execute e (NewParallelNode nid))) = BNODE_STAT_SUCC"
    by (simp add: NewParallelNode_def new_root_not_completed GetState_def)
  show "GetState (fst (Execute_times (Suc k) e (NewSequenceNode nid))) = BNODE_STAT_EXECUTING"
    unfolding NewSequenceNode_def
    by (simp only: empty_sequence_times [OF new_root_not_completed]) (simp add: GetState_def)
  show "GetState (fst (Execute_times (Suc k) e (NewSelectNode nid))) = BNODE_STAT_EXECUTING"
    unfolding NewSelectNode_def
    by (simp only: empty_select_times [OF new_root_not_completed]) (simp add: GetState_def)
qed (simp_all add: empty_sequence_times empty_select_times del: Execute_times.simps)

text \<open>Three calls on empty composites and on a new tree.\<close>

theorem empty_composites_witness:
  "\<not> base_IsCompleted (NewControlNode 5 BNODE_TYPE_SEQUENCE)
   \<and> Execute_times 3 (script_env [BNODE_STAT_SUCC]) (NewSequenceNode 5)
       = (SequenceNode ((NewControlNode 5 BNODE_TYPE_SEQUENCE)\<lparr>nstate := BNODE_STAT_EXECUTING\<rparr>) [],
          script_env [BNODE_STAT_SUCC])
   \<and> Execute_times 3 (script_env [BNODE_STAT_SUCC])
         (SelectNode (NewControlNode 5 BNODE_TYPE_SEQUENCE) [])
       = (SelectNode ((NewControlNode 5 BNODE_TYPE_SEQUENCE)\<lparr>nstate := BNODE_STAT_EXECUTING\<rparr>) [],
          script_env [BNODE_STAT_SUCC])
   \<and> Execute (script_env [BNODE_STAT_SUCC])
         (ParallelNode (NewControlNode 5 BNODE_TYPE_SEQUENCE) [])
       = (ParallelNode ((NewControlNode 5 BNODE_TYPE_SEQUENCE)\<lparr>nstate := BNODE_STAT_SUCC\<rparr>) [],
          script_env [BNODE_STAT_SUCC])
   \<and> \<not> BehaviorTree_IsCompleted
         (fst (BehaviorTree_Execute_times 3 (script_env [BNODE_STAT_SUCC])
                (NewBehaviorTree 9 :: (BNodeState list, unit) BehaviorTree)))"
proof -
  have h: "\<not> base_IsCompleted (NewControlNode 5 BNODE_TYPE_SEQUENCE)"
    by (simp add: node_defs)
  have three: "(3 :: nat) = Suc 2" by simp
  from empty_composites
    [where b = "NewControlNode 5 BNODE_TYPE_SEQUENCE" and k = 2 and e = "script_env [BNODE_STAT_SUCC]"
       and tid = 9 and nid = 7]
    empty_composites
    [where b = "NewControlNode 5 BNODE_TYPE_SEQUENCE" and k = 3 and e = "script_env [BNODE_STAT_SUCC]"
       and tid = 9 and nid = 7]
    h
  show ?thesis
    by (simp only: three NewSequenceNode_def) blast
qed

section \<open>Properties of the finite-state machine\<close>

lemmas fsm_defs =
  NewFSM_def AddState_def AddAction_def AddTransition_def NewFSMTransition_def Start_def
  GetState_fsm_def GetAction_def GetTransition_def

lemmas example_defs =
  fsm_A_def fsm_AB_def with_gate_def fsm_veto_def fsm_veto_no_target_def fsm_go_def
  fsm_go_no_target_def fsm_went_def gate_false_def gate_true_def

subsection \<open>The example machines, evaluated\<close>

lemma fsm_went_eq: "fsm_went = fsm_go\<lparr>oldStates := [''A''], state := ''B''\<rparr>"
  by (simp add: example_defs fsm_defs Trigger_def do_transition_def)

lemma fsm_go_fields:
  "state fsm_go = ''A''" "oldStates fsm_go = []"
  "mapName2State fsm_go ''A'' = Some ''stateA''" "mapName2State fsm_go ''B'' = Some ''stateB''"
  by (simp_all add: example_defs fsm_defs)

lemma GetTransition_Some_evt:
  "GetTransition f from evt = Some tran \<Longrightarrow> length evt \<noteq> 0"
  by (simp add: GetTransition_def split: if_splits)

lemma Trigger_done:
  assumes "length (state f) \<noteq> 0"
    and "GetTransition f (state f) evt = Some tran"
    and "GetState_fsm f (state f) = Some oldStat"
    and "GetState_fsm f (To tran) = Some newStat"
    and "case GetAction f (Action tran) of None \<Rightarrow> True | Some act \<Rightarrow> DoAction act evt param"
  shows "Trigger f evt param =
           (None,
            f\<lparr>oldStates := oldStates f @ [state f], state := To tran\<rparr>,
            (case GetAction f (Action tran) of
               None \<Rightarrow> []
             | Some act \<Rightarrow> [Call_DoAction act evt param])
            @ [Call_OnExit oldStat (To tran), Call_OnEnter newStat (state f)])"
  using assms GetTransition_Some_evt [OF assms(2)]
  by (auto simp: Trigger_def do_transition_def split: option.splits)

subsection \<open>Trigger: the veto\<close>

text \<open>
  The claim as it is written asks nothing of the two end states. With the target of the
  transition not registered, \<^verbatim>\<open>Trigger\<close> returns \<^verbatim>\<open>ErrToStatNotExist\<close> before it looks
  the action up, and the gate is not called: machine \<open>fsm_veto_no_target\<close> has current
  state A, the transition (A, go, B, gate) and a registered gate that returns false.
\<close>

theorem Trigger_veto_counterexample:
  "length (state fsm_veto_no_target) \<noteq> 0
   \<and> GetTransition fsm_veto_no_target (state fsm_veto_no_target) ''go''
       = Some (NewFSMTransition ''A'' ''go'' ''B'' ''gate'')
   \<and> GetAction fsm_veto_no_target ''gate'' = Some gate_false
   \<and> \<not> DoAction gate_false ''go'' []
   \<and> Trigger fsm_veto_no_target ''go'' [] = (Some ErrToStatNotExist, fsm_veto_no_target, [])"
  by (simp add: example_defs fsm_defs Trigger_def)

text \<open>
  Claim C1, amended: for every machine with a current state and a transition matching
  (current state, event), \<^emph>\<open>whose current state and target state are both registered\<close>,
  and whose gating action is registered and returns false, \<^verbatim>\<open>Trigger\<close> returns no error,
  leaves the machine as it was (current state and history stack unchanged), calls no
  \<^verbatim>\<open>OnExit\<close> and no \<^verbatim>\<open>OnEnter\<close>, and calls the \<^verbatim>\<open>DoAction\<close> of the gate exactly once.
\<close>

theorem Trigger_veto:
  assumes "length (state f) \<noteq> 0"
    and "GetTransition f (state f) evt = Some tran"
    and "GetState_fsm f (state f) = Some oldStat"
    and "GetState_fsm f (To tran) = Some newStat"
    and "GetAction f (Action tran) = Some act"
    and "\<not> DoAction act evt param"
  shows "Trigger f evt param = (None, f, [Call_DoAction act evt param])"
  using assms GetTransition_Some_evt [OF assms(2)] by (simp add: Trigger_def)

theorem Trigger_veto_witness:
  "length (state fsm_veto) \<noteq> 0
   \<and> GetTransition fsm_veto (state fsm_veto) ''go'' = Some (NewFSMTransition ''A'' ''go'' ''B'' ''gate'')
   \<and> GetState_fsm fsm_veto (state fsm_veto) = Some ''stateA''
   \<and> GetState_fsm fsm_veto ''B'' = Some ''stateB''
   \<and> GetAction fsm_veto ''gate'' = Some gate_false
   \<and> \<not> DoAction gate_false ''go'' []
   \<and> Trigger fsm_veto ''go'' [] = (None, fsm_veto, [Call_DoAction gate_false ''go'' []])"
proof -
  have h1: "length (state fsm_veto) \<noteq> 0"
    by (simp add: example_defs fsm_defs)
  have h2: "GetTransition fsm_veto (state fsm_veto) ''go'' = Some (NewFSMTransition ''A'' ''go'' ''B'' ''gate'')"
    by (simp add: example_defs fsm_defs)
  have h3: "GetState_fsm fsm_veto (state fsm_veto) = Some ''stateA''"
    by (simp add: example_defs fsm_defs)
  have h4: "GetState_fsm fsm_veto (To (NewFSMTransition ''A'' ''go'' ''B'' ''gate'')) = Some ''stateB''"
    by (simp add: example_defs fsm_defs)
  have h5: "GetAction fsm_veto (Action (NewFSMTransition ''A'' ''go'' ''B'' ''gate'')) = Some gate_false"
    by (simp add: example_defs fsm_defs)
  have h6: "\<not> DoAction gate_false ''go'' []"
    by (simp add: gate_false_def)
  from Trigger_veto [OF h1 h2 h3 h4 h5 h6] h1 h2 h3 h4 h5 h6
  show ?thesis by (simp add: NewFSMTransition_def)
qed

subsection \<open>Trigger: the transition\<close>

text \<open>
  As written, the claim holds for a target that is not registered as well; there
  \<^verbatim>\<open>Trigger\<close> returns \<^verbatim>\<open>ErrToStatNotExist\<close> and changes nothing, here with a gate that
  returns true.
\<close>

theorem Trigger_transition_counterexample:
  "length (state fsm_go_no_target) \<noteq> 0
   \<and> GetTransition fsm_go_no_target (state fsm_go_no_target) ''go''
       = Some (NewFSMTransition ''A'' ''go'' ''B'' ''gate'')
   \<and> GetAction fsm_go_no_target ''gate'' = Some gate_true
   \<and> DoAction gate_true ''go'' []
   \<and> Trigger fsm_go_no_target ''go'' [] = (Some ErrToStatNotExist, fsm_go_no_target, [])"
  by (simp add: example_defs fsm_defs Trigger_def)

text \<open>
  Claim C5, amended: for every machine with current state A and a matching transition
  (A, event, B) that is not vetoed (its action is not registered, or returns true),
  \<^emph>\<open>with A and B both registered\<close>, \<^verbatim>\<open>Trigger\<close> calls \<^verbatim>\<open>OnExit(B)\<close> on the state object
  of A and then \<^verbatim>\<open>OnEnter(A)\<close> on the state object of B, after the call of the gate if
  there is one, pushes A onto the history stack, makes B the current state and returns
  no error.
\<close>

theorem Trigger_transition:
  assumes "length (state f) \<noteq> 0"
    and "GetTransition f (state f) evt = Some tran"
    and "GetState_fsm f (state f) = Some oldStat"
    and "GetState_fsm f (To tran) = Some newStat"
    and "case GetAction f (Action tran) of None \<Rightarrow> True | Some act \<Rightarrow> DoAction act evt param"
  shows "Trigger f evt param =
           (None,
            f\<lparr>oldStates := oldStates f @ [state f], state := To tran\<rparr>,
            (case GetAction f (Action tran) of
               None \<Rightarrow> []
             | Some act \<Rightarrow> [Call_DoAction act evt param])
            @ [Call_OnExit oldStat (To tran), Call_OnEnter newStat (state f)])"
  using assms by (rule Trigger_done)

text \<open>At \<open>fsm_go\<close>, whose gate returns true.\<close>

theorem Trigger_transition_witness:
  "length (state fsm_go) \<noteq> 0
   \<and> GetTransition fsm_go (state fsm_go) ''go'' = Some (NewFSMTransition ''A'' ''go'' ''B'' ''gate'')
   \<and> GetState_fsm fsm_go (state fsm_go) = Some ''stateA''
   \<and> GetState_fsm fsm_go ''B'' = Some ''stateB''
   \<and> GetAction fsm_go ''gate'' = Some gate_true
   \<and> DoAction gate_true ''go'' []
   \<and> Trigger fsm_go ''go'' [] =
        (None, fsm_go\<lparr>oldStates := [''A''], state := ''B''\<rparr>,
         [Call_DoAction gate_true ''go'' [], Call_OnExit ''stateA'' ''B'',
          Call_OnEnter ''stateB'' ''A''])"
proof -
  let ?tran = "NewFSMTransition ''A'' ''go'' ''B'' ''gate''"
  have h1: "length (state fsm_go) \<noteq> 0"
    by (simp add: example_defs fsm_defs)
  have h2: "GetTransition fsm_go (state fsm_go) ''go'' = Some ?tran"
    by (simp add: example_defs fsm_defs)
  have h3: "GetState_fsm fsm_go (state fsm_go) = Some ''stateA''"
    by (simp add: example_defs fsm_defs)
  have h4: "GetState_fsm fsm_go (To ?tran) = Some ''stateB''"
    by (simp add: example_defs fsm_defs)
  have h5: "GetAction fsm_go (Action ?tran) = Some gate_true"
    by (simp add: example_defs fsm_defs)
  have h6: "case GetAction fsm_go (Action ?tran) of None \<Rightarrow> True
            | Some act \<Rightarrow> DoAction act ''go'' []"
    by (simp add: h5) (simp add: gate_true_def)
  have s: "state fsm_go = ''A''" "oldStates fsm_go = []"
    by (simp_all add: example_defs fsm_defs)
  from Trigger_transition [OF h1 h2 h3 h4 h6] h1 h2 h3 h4 h5 h6
  show ?thesis by (simp add: NewFSMTransition_def s)
qed

subsection \<open>PopState\<close>

lemma PopState_empty: "oldStates f = [] \<Longrightarrow> PopState f = (Some ErrNoOldStat, f, [])"
  by (simp add: PopState_def)

lemma PopState_no_from:
  "oldStates f \<noteq> [] \<Longrightarrow> GetState_fsm f (state f) = None
     \<Longrightarrow> PopState f = (Some ErrFromStatNotExist, f, [])"
  by (simp add: PopState_def)

lemma PopState_no_to:
  "oldStates f \<noteq> [] \<Longrightarrow> GetState_fsm f (state f) = Some c
     \<Longrightarrow> GetState_fsm f (last (oldStates f)) = None
     \<Longrightarrow> PopState f = (Some ErrToStatNotExist, f, [])"
  by (simp add: PopState_def Let_def last_conv_nth)

lemma PopState_done:
  "oldStates f \<noteq> [] \<Longrightarrow> GetState_fsm f (state f) = Some c
     \<Longrightarrow> GetState_fsm f (last (oldStates f)) = Some t
     \<Longrightarrow> PopState f =
           (None, f\<lparr>state := last (oldStates f), oldStates := butlast (oldStates f)\<rparr>,
            [Call_OnExit c (last (oldStates f)), Call_OnEnter t (state f)])"
  by (simp add: PopState_def Let_def last_conv_nth butlast_conv_take)

lemma Trigger_then_PopState:
  assumes "length (state f) \<noteq> 0"
    and "GetTransition f (state f) evt = Some tran"
    and "GetState_fsm f (state f) = Some a"
    and "GetState_fsm f (To tran) = Some b"
    and "case GetAction f (Action tran) of None \<Rightarrow> True | Some act \<Rightarrow> DoAction act evt param"
  shows "PopState (fst (snd (Trigger f evt param)))
           = (None, f, [Call_OnExit b (state f), Call_OnEnter a (To tran)])"
proof -
  let ?f' = "f\<lparr>oldStates := oldStates f @ [state f], state := To tran\<rparr>"
  have t: "fst (snd (Trigger f evt param)) = ?f'"
    using Trigger_done [OF assms] by simp
  have "PopState ?f' =
          (None, ?f'\<lparr>state := last (oldStates ?f'), oldStates := butlast (oldStates ?f')\<rparr>,
           [Call_OnExit b (last (oldStates ?f')), Call_OnEnter a (state ?f')])"
    by (rule PopState_done) (use assms in \<open>simp_all add: GetState_fsm_def\<close>)
  then show ?thesis
    using t by simp
qed

text \<open>
  Claim C6: \<^verbatim>\<open>PopState\<close> fails with \<^verbatim>\<open>ErrNoOldStat\<close> (NoHistory) when the history stack
  is empty. Otherwise it fails with \<^verbatim>\<open>ErrFromStatNotExist\<close> when the current state C is
  not registered, and with \<^verbatim>\<open>ErrToStatNotExist\<close> when C is registered and the top of the
  stack T is not; a failure changes nothing and calls nothing. With both registered it
  calls \<^verbatim>\<open>OnExit(T)\<close> on C, then \<^verbatim>\<open>OnEnter(C)\<close> on T, makes T the current state, removes
  T from the stack and pushes nothing. So a \<^verbatim>\<open>Trigger\<close> that made a transition from a
  machine with an empty stack, followed by \<^verbatim>\<open>PopState\<close>, gives the machine back as it
  was, with an empty stack, and a second \<^verbatim>\<open>PopState\<close> fails with \<^verbatim>\<open>ErrNoOldStat\<close>.
\<close>

theorem PopState_contract:
  "(oldStates f = [] \<longrightarrow> PopState f = (Some ErrNoOldStat, f, []))
   \<and> (oldStates f \<noteq> [] \<and> GetState_fsm f (state f) = None
        \<longrightarrow> PopState f = (Some ErrFromStatNotExist, f, []))
   \<and> (oldStates f \<noteq> [] \<and> GetState_fsm f (state f) = Some c
        \<and> GetState_fsm f (last (oldStates f)) = None
        \<longrightarrow> PopState f = (Some ErrToStatNotExist, f, []))
   \<and> (oldStates f \<noteq> [] \<and> GetState_fsm f (state f) = Some c
        \<and> GetState_fsm f (last (oldStates f)) = Some t
        \<longrightarrow> PopState f =
              (None, f\<lparr>state := last (oldStates f), oldStates := butlast (oldStates f)\<rparr>,
               [Call_OnExit c (last (oldStates f)), Call_OnEnter t (state f)]))
   \<and> (length (state f) \<noteq> 0 \<and> GetTransition f (state f) evt = Some tran
        \<and> GetState_fsm f (state f) = Some a \<and> GetState_fsm f (To tran) = Some b
        \<and> (case GetAction f (Action tran) of None \<Rightarrow> True | Some act \<Rightarrow> DoAction act evt param)
        \<and> oldStates f = []
        \<longrightarrow> (case Trigger f evt param of
               (err1, f1, calls1) \<Rightarrow>
                 (case PopState f1 of
                    (err2, f2, calls2) \<Rightarrow>
                      err1 = None \<and> oldStates f1 = [state f] \<and> state f1 = To tran
                      \<and> err2 = None \<and> f2 = f \<and> oldStates f2 = []
                      \<and> calls2 = [Call_OnExit b (state f), Call_OnEnter a (To tran)]
                      \<and> PopState f2 = (Some ErrNoOldStat, f2, []))))"
proof (intro conjI impI)
  assume h: "length (state f) \<noteq> 0 \<and> GetTransition f (state f) evt = Some tran
        \<and> GetState_fsm f (state f) = Some a \<and> GetState_fsm f (To tran) = Some b
        \<and> (case GetAction f (Action tran) of None \<Rightarrow> True | Some act \<Rightarrow> DoAction act evt param)
        \<and> oldStates f = []"
  then have p: "PopState (fst (snd (Trigger f evt param)))
           = (None, f, [Call_OnExit b (state f), Call_OnEnter a (To tran)])"
    using Trigger_then_PopState [of f evt tran a b param] by blast
  have t: "Trigger f evt param =
           (None,
            f\<lparr>oldStates := oldStates f @ [state f], state := To tran\<rparr>,
            (case GetAction f (Action tran) of
               None \<Rightarrow> []
             | Some act \<Rightarrow> [Call_DoAction act evt param])
            @ [Call_OnExit a (To tran), Call_OnEnter b (state f)])"
    using h Trigger_done [of f evt tran a b param] by blast
  show "case Trigger f evt param of
               (err1, f1, calls1) \<Rightarrow>
                 (case PopState f1 of
                    (err2, f2, calls2) \<Rightarrow>
                      err1 = None \<and> oldStates f1 = [state f] \<and> state f1 = To tran
                      \<and> err2 = None \<and> f2 = f \<and> oldStates f2 = []
                      \<and> calls2 = [Call_OnExit b (state f), Call_OnEnter a (To tran)]
                      \<and> PopState f2 = (Some ErrNoOldStat, f2, []))"
    using p h by (simp add: t PopState_empty)
qed (simp_all add: PopState_empty PopState_no_from PopState_no_to PopState_done)

text \<open>
  At \<open>fsm_go\<close> (empty stack), at \<open>fsm_went\<close> (after the transition to B) with B or A
  removed, and at \<open>fsm_went\<close> itself.
\<close>

theorem PopState_contract_witness:
  "oldStates fsm_go = [] \<and> PopState fsm_go = (Some ErrNoOldStat, fsm_go, [])
   \<and> oldStates (RemoveState fsm_went ''B'') \<noteq> []
   \<and> GetState_fsm (RemoveState fsm_went ''B'') (state (RemoveState fsm_went ''B'')) = None
   \<and> PopState (RemoveState fsm_went ''B'')
       = (Some ErrFromStatNotExist, RemoveState fsm_went ''B'', [])
   \<and> GetState_fsm (RemoveState fsm_went ''A'') (state (RemoveState fsm_went ''A'')) = Some ''stateB''
   \<and> GetState_fsm (RemoveState fsm_went ''A'') (last (oldStates (RemoveState fsm_went ''A''))) = None
   \<and> PopState (RemoveState fsm_went ''A'')
       = (Some ErrToStatNotExist, RemoveState fsm_went ''A'', [])
   \<and> oldStates fsm_went = [''A''] \<and> state fsm_went = ''B''
   \<and> PopState fsm_went
       = (None, fsm_go, [Call_OnExit ''stateB'' ''A'', Call_OnEnter ''stateA'' ''B''])
   \<and> fst (Trigger fsm_go ''go'' []) = None
   \<and> PopState (fst (snd (Trigger fsm_go ''go'' [])))
       = (None, fsm_go, [Call_OnExit ''stateB'' ''A'', Call_OnEnter ''stateA'' ''B''])
   \<and> PopState (fst (snd (PopState (fst (snd (Trigger fsm_go ''go'' []))))))
       = (Some ErrNoOldStat, fsm_go, [])"
proof -
  let ?tran = "NewFSMTransition ''A'' ''go'' ''B'' ''gate''"
  let ?noB = "RemoveState fsm_went ''B''"
  let ?noA = "RemoveState fsm_went ''A''"
  have noB: "oldStates ?noB = [''A'']" "state ?noB = ''B''" "mapName2State ?noB ''B'' = None"
    by (simp_all add: fsm_went_eq RemoveState_def fsm_go_fields)
  have noA: "oldStates ?noA = [''A'']" "state ?noA = ''B''" "mapName2State ?noA ''A'' = None"
    "mapName2State ?noA ''B'' = Some ''stateB''"
    by (simp_all add: fsm_went_eq RemoveState_def fsm_go_fields)
  have went: "oldStates fsm_went = [''A'']" "state fsm_went = ''B''"
    "mapName2State fsm_went ''A'' = Some ''stateA''" "mapName2State fsm_went ''B'' = Some ''stateB''"
    by (simp_all add: fsm_went_eq fsm_go_fields)
  have restored: "fsm_went\<lparr>state := ''A'', oldStates := []\<rparr> = fsm_go"
    by (simp add: example_defs fsm_defs Trigger_def do_transition_def)
  have g: "GetTransition fsm_go (state fsm_go) ''go'' = Some ?tran"
    "GetAction fsm_go (Action ?tran) = Some gate_true" "DoAction gate_true ''go'' []"
    by (simp_all add: example_defs fsm_defs)
  have a: "PopState fsm_go = (Some ErrNoOldStat, fsm_go, [])"
    using PopState_contract [of fsm_go] by (simp add: fsm_go_fields)
  have b: "PopState ?noB = (Some ErrFromStatNotExist, ?noB, [])"
    using PopState_contract [of ?noB] by (simp add: noB GetState_fsm_def)
  have c: "PopState ?noA = (Some ErrToStatNotExist, ?noA, [])"
    using PopState_contract [of ?noA "''stateB''"] by (simp add: noA GetState_fsm_def)
  have d: "PopState fsm_went
       = (None, fsm_go, [Call_OnExit ''stateB'' ''A'', Call_OnEnter ''stateA'' ''B''])"
    using PopState_contract [of fsm_went "''stateB''" "''stateA''"]
    by (simp add: went GetState_fsm_def restored)
  have e: "fst (Trigger fsm_go ''go'' []) = None
     \<and> PopState (fst (snd (Trigger fsm_go ''go'' [])))
       = (None, fsm_go, [Call_OnExit ''stateB'' ''A'', Call_OnEnter ''stateA'' ''B''])
     \<and> PopState (fst (snd (PopState (fst (snd (Trigger fsm_go ''go'' []))))))
       = (Some ErrNoOldStat, fsm_go, [])"
    using PopState_contract [of fsm_go _ _ "''go''" ?tran "''stateA''" "''stateB''" "[]"] g
    by (simp add: fsm_go_fields GetState_fsm_def NewFSMTransition_def split: prod.splits)
  show ?thesis
    using a b c d e by (simp add: noB noA went fsm_go_fields GetState_fsm_def)
qed

subsection \<open>AddTransition\<close>

text \<open>
  For an empty \<open>from\<close> the code returns \<^verbatim>\<open>ErrFromStatNotExist\<close>, the error \<^verbatim>\<open>Trigger\<close>
  and \<^verbatim>\<open>PopState\<close> return for a state that is not registered (FromStateNotFound), and
  for an empty \<open>to\<close> it returns \<^verbatim>\<open>ErrToStatNotExist\<close> (ToStateNotFound): the package has
  no error of its own for the two.
\<close>

theorem AddTransition_error_kind_counterexample:
  "map_option kind_of (fst (AddTransition fsm_AB [] ''go'' ''B'' ''gate'')) = Some FromStateNotFound
   \<and> map_option kind_of (fst (AddTransition fsm_AB [] ''go'' ''B'' ''gate'')) \<noteq> Some EmptyFrom
   \<and> map_option kind_of (fst (AddTransition fsm_AB ''A'' ''go'' [] ''gate'')) = Some ToStateNotFound
   \<and> map_option kind_of (fst (AddTransition fsm_AB ''A'' ''go'' [] ''gate'')) \<noteq> Some EmptyTo"
  by (simp add: AddTransition_def)

text \<open>
  Claim C8, amended: \<^verbatim>\<open>AddTransition(from, event, to, action)\<close> fails with
  \<^verbatim>\<open>ErrFromStatNotExist\<close> (FromStateNotFound) when \<open>from\<close> is empty, with \<^verbatim>\<open>ErrEvtEmpty\<close>
  (EmptyEvent) when \<open>from\<close> is not empty and \<open>event\<close> is, and with \<^verbatim>\<open>ErrToStatNotExist\<close>
  (ToStateNotFound) when only \<open>to\<close> is empty, leaving the machine as it was. Otherwise
  it returns no error and appends the record to the transitions, whatever \<open>action\<close> is
  (the empty string too) and whatever states are registered (none at all too).
\<close>

theorem AddTransition_contract:
  "(from = [] \<longrightarrow> AddTransition f from evt to action = (Some ErrFromStatNotExist, f))
   \<and> (from \<noteq> [] \<and> evt = [] \<longrightarrow> AddTransition f from evt to action = (Some ErrEvtEmpty, f))
   \<and> (from \<noteq> [] \<and> evt \<noteq> [] \<and> to = []
        \<longrightarrow> AddTransition f from evt to action = (Some ErrToStatNotExist, f))
   \<and> (from \<noteq> [] \<and> evt \<noteq> [] \<and> to \<noteq> []
        \<longrightarrow> AddTransition f from evt to action =
              (None, f\<lparr>transitions := transitions f
                          @ [\<lparr>From = from, Event = evt, To = to, Action = action\<rparr>]\<rparr>))
   \<and> (from \<noteq> [] \<and> evt \<noteq> [] \<and> to \<noteq> []
        \<longrightarrow> fst (AddTransition f from evt to []) = None
            \<and> fst (AddTransition (f\<lparr>mapName2State := Map.empty\<rparr>) from evt to action) = None)"
  by (simp add: AddTransition_def NewFSMTransition_def)

text \<open>Each empty field in turn, and a transition between two names that are not registered.\<close>

theorem AddTransition_contract_witness:
  "AddTransition fsm_AB [] ''go'' ''B'' ''gate'' = (Some ErrFromStatNotExist, fsm_AB)
   \<and> AddTransition fsm_AB ''A'' [] ''B'' ''gate'' = (Some ErrEvtEmpty, fsm_AB)
   \<and> AddTransition fsm_AB ''A'' ''go'' [] ''gate'' = (Some ErrToStatNotExist, fsm_AB)
   \<and> AddTransition fsm_AB ''X'' ''go'' ''Y'' [] =
        (None, fsm_AB\<lparr>transitions := [\<lparr>From = ''X'', Event = ''go'', To = ''Y'', Action = []\<rparr>]\<rparr>)
   \<and> mapName2State fsm_AB ''X'' = None \<and> mapName2State fsm_AB ''Y'' = None"
proof -
  have t: "transitions fsm_AB = []" "mapName2State fsm_AB ''X'' = None"
    "mapName2State fsm_AB ''Y'' = None"
    by (simp_all add: example_defs fsm_defs)
  show ?thesis
    using AddTransition_contract [of "[]" fsm_AB "''go''" "''B''" "''gate''"]
      AddTransition_contract [of "''A''" fsm_AB "[]" "''B''" "''gate''"]
      AddTransition_contract [of "''A''" fsm_AB "''go''" "[]" "''gate''"]
      AddTransition_contract [of "''X''" fsm_AB "''go''" "''Y''" "[]"]
    by (simp add: t)
qed

subsection \<open>Start\<close>

text \<open>
  Claim C9: \<^verbatim>\<open>Start(firstState)\<close> fails with \<^verbatim>\<open>ErrNoFirstStat\<close> (NoFirstState) if and
  only if the name is empty, and then changes nothing. If the name is not empty and is
  registered, it makes it the current state and calls \<^verbatim>\<open>OnEnter("")\<close> on its state object,
  once, and nothing else. If the name is not empty and not registered, it returns no
  error, leaves the machine as it was (so a machine without a current state stays
  without one) and calls no hook. After \<^verbatim>\<open>AddState(name, s)\<close>, \<^verbatim>\<open>Start(name)\<close> gives
  \<^verbatim>\<open>GetCurState() == name\<close> and one call of \<^verbatim>\<open>OnEnter("")\<close>.
\<close>

theorem Start_contract:
  "(fst (Start f firstState) = Some ErrNoFirstStat \<longleftrightarrow> firstState = [])
   \<and> (firstState = [] \<longrightarrow> Start f firstState = (Some ErrNoFirstStat, f, []))
   \<and> (firstState \<noteq> [] \<and> GetState_fsm f firstState = Some stat
        \<longrightarrow> Start f firstState = (None, f\<lparr>state := firstState\<rparr>, [Call_OnEnter stat []]))
   \<and> (firstState \<noteq> [] \<and> GetState_fsm f firstState = None
        \<longrightarrow> Start f firstState = (None, f, []))
   \<and> (firstState \<noteq> []
        \<longrightarrow> fst (Start (snd (AddState f firstState (Some stat))) firstState) = None
            \<and> GetCurState (fst (snd (Start (snd (AddState f firstState (Some stat))) firstState)))
                = firstState
            \<and> snd (snd (Start (snd (AddState f firstState (Some stat))) firstState))
                = [Call_OnEnter stat []])"
  by (auto simp: Start_def AddState_def GetState_fsm_def GetCurState_def split: option.splits)

text \<open>The empty name, a registered name and an unregistered one.\<close>

theorem Start_contract_witness:
  "Start fsm_AB [] = (Some ErrNoFirstStat, fsm_AB, [])
   \<and> GetState_fsm fsm_AB ''A'' = Some ''stateA''
   \<and> Start fsm_AB ''A'' = (None, fsm_AB\<lparr>state := ''A''\<rparr>, [Call_OnEnter ''stateA'' []])
   \<and> GetState_fsm fsm_AB ''Z'' = None
   \<and> Start fsm_AB ''Z'' = (None, fsm_AB, [])
   \<and> state fsm_AB = []
   \<and> GetCurState (fst (snd (Start (snd (AddState (NewFSM 1 :: (string, unit) FSM) ''A'' (Some ''stateA''))) ''A''))) = ''A''
   \<and> snd (snd (Start (snd (AddState (NewFSM 1 :: (string, unit) FSM) ''A'' (Some ''stateA''))) ''A''))
       = [Call_OnEnter ''stateA'' []]"
proof -
  have g: "GetState_fsm fsm_AB ''A'' = Some ''stateA''" "GetState_fsm fsm_AB ''Z'' = None"
    "state fsm_AB = []"
    by (simp_all add: example_defs fsm_defs)
  show ?thesis
    using Start_contract [of fsm_AB "[]"]
      Start_contract [of fsm_AB "''A''" "''stateA''"]
      Start_contract [of fsm_AB "''Z''"]
      Start_contract [of "NewFSM 1 :: (string, unit) FSM" "''A''" "''stateA''"]
    by (simp add: g)
qed

end
